theory Spec2Isabelle
  imports Complex_Main "HOL-Library.AList" "HOL-Library.Sublist"
begin

section \<open>Exceptions\<close>

text \<open>
  Every \<^verbatim>\<open>raise\<close> of the Python sources is a value of \<open>error\<close>; a function that can
  raise returns \<open>error + 'a\<close> with \<open>Inl\<close> for the exception. \<open>Exception msg\<close> is
  \<^verbatim>\<open>raise Exception(msg)\<close>, \<open>AssertionError\<close> a failed \<^verbatim>\<open>assert\<close>, \<open>KeyError\<close> a missing
  dictionary key, \<open>TypeError\<close> a subscript on a value that is not a dictionary,
  \<open>AttributeError\<close> a method call on a value without that method, \<open>IndexError\<close> a list
  index out of range, and \<open>CalledProcessError\<close> a \<^verbatim>\<open>subprocess.run(..., check=True)\<close>
  whose command exits with a non-zero status.
\<close>

datatype error =
    Exception string
  | AssertionError
  | KeyError
  | TypeError
  | AttributeError
  | IndexError
  | CalledProcessError

section \<open>Dimension types: \<^verbatim>\<open>tools/print_baselines/utils/types.py\<close>\<close>

text \<open>
  A character is a Unicode code point below 256 (the Latin-1 range) and a string a list
  of them; strings with other code points are not values of the type. On this range
  \<^verbatim>\<open>str.lower\<close> works character by character: the letters \<^verbatim>\<open>A\<close>..\<^verbatim>\<open>Z\<close> (65..90) and the
  accented capitals 192..222 other than the multiplication sign 215 move up by 32, every
  other character stays.
\<close>

definition lower_char :: "char \<Rightarrow> char" where
  "lower_char c =
     (let n = (of_char c :: nat) in
      if (65 \<le> n \<and> n \<le> 90) \<or> (192 \<le> n \<and> n \<le> 222 \<and> n \<noteq> 215) then char_of (n + 32)
      else c)"

definition lower :: "string \<Rightarrow> string" where
  "lower s = map lower_char s"

text \<open>
  Two characters are the same letter when they are equal or one is the capital of the
  other in the alphabet \<^verbatim>\<open>A\<close>..\<^verbatim>\<open>Z\<close>; two strings differ only in case when they are the same
  letter position by position (\<open>list_all2 same_letter\<close>).
\<close>

definition ascii_uppercase :: string where
  "ascii_uppercase = ''ABCDEFGHIJKLMNOPQRSTUVWXYZ''"

definition ascii_lowercase :: string where
  "ascii_lowercase = ''abcdefghijklmnopqrstuvwxyz''"

definition digits :: string where
  "digits = ''0123456789''"

definition same_letter :: "char \<Rightarrow> char \<Rightarrow> bool" where
  "same_letter a b \<longleftrightarrow>
     a = b \<or> (a, b) \<in> set (zip ascii_uppercase ascii_lowercase)
     \<or> (b, a) \<in> set (zip ascii_uppercase ascii_lowercase)"

subsection \<open>CpuModel\<close>

datatype CpuModel =
  SKY_LAKE | CASCADE_LAKE | ICE_LAKE | MILAN | GRAVITON2 | GRAVITON3 | GRAVITON4

fun CpuModel_str :: "CpuModel \<Rightarrow> string" where
  "CpuModel_str SKY_LAKE = ''SkyLake''"
| "CpuModel_str CASCADE_LAKE = ''CascadeLake''"
| "CpuModel_str ICE_LAKE = ''IceLake''"
| "CpuModel_str MILAN = ''Milan''"
| "CpuModel_str GRAVITON2 = ''Graviton2''"
| "CpuModel_str GRAVITON3 = ''Graviton3''"
| "CpuModel_str GRAVITON4 = ''Graviton4''"

definition MODELCODE :: "((string \<times> string) \<times> CpuModel) list" where
  "MODELCODE =
    [((''m5d.metal'', ''Intel(R) Xeon(R) Platinum 8175M CPU @ 2.50GHz''), SKY_LAKE),
     ((''m5d.metal'', ''Intel(R) Xeon(R) Platinum 8259CL CPU @ 2.50GHz''), CASCADE_LAKE),
     ((''m6i.metal'', ''Intel(R) Xeon(R) Platinum 8375C CPU @ 2.90GHz''), ICE_LAKE),
     ((''m6a.metal'', ''AMD EPYC 7R13 48-Core Processor''), MILAN),
     ((''m6g.metal'', ''ARM_NEOVERSE_N1''), GRAVITON2),
     ((''m6g.metal'', ''ARM_NEOVERSE_V1''), GRAVITON3),
     ((''c7g.metal'', ''ARM_NEOVERSE_V1''), GRAVITON4)]"

text \<open>\<^verbatim>\<open>CpuModel.from_str(instance_type, model)\<close>: a dictionary lookup, \<^verbatim>\<open>KeyError\<close> on a
  pair that is not in the table.\<close>

definition CpuModel_from_str :: "string \<Rightarrow> string \<Rightarrow> error + CpuModel" where
  "CpuModel_from_str instance_type model_str =
     (case map_of MODELCODE (instance_type, model_str) of
        None \<Rightarrow> Inl KeyError
      | Some m \<Rightarrow> Inr m)"

definition CpuModel_from_codename :: "string \<Rightarrow> error + CpuModel" where
  "CpuModel_from_codename name0 =
     (let name = lower name0 in
      if name = ''skylake'' then Inr SKY_LAKE
      else if name = ''cascadelake'' then Inr CASCADE_LAKE
      else if name = ''icelake'' then Inr ICE_LAKE
      else if name = ''milan'' then Inr MILAN
      else if name = ''graviton2'' then Inr GRAVITON2
      else if name = ''graviton3'' then Inr GRAVITON3
      else if name = ''graviton4'' then Inr GRAVITON4
      else Inl (Exception (''Unknown CPU model: '' @ name)))"

subsection \<open>GuestOs\<close>

datatype GuestOs = UBUNTU_18_04

fun GuestOs_str :: "GuestOs \<Rightarrow> string" where
  "GuestOs_str UBUNTU_18_04 = ''Ubuntu 18.04''"

definition GuestOs_from_str :: "string \<Rightarrow> error + GuestOs" where
  "GuestOs_from_str raw_str =
     (if raw_str = ''ubuntu-18.04.ext4'' then Inr UBUNTU_18_04
      else Inl (Exception (''Unknown guest os: '' @ raw_str)))"

subsection \<open>MachineConfig\<close>

datatype MachineConfig = VCPU_1_MEM_1G | VCPU_2_MEM_1G

fun MachineConfig_str :: "MachineConfig \<Rightarrow> string" where
  "MachineConfig_str VCPU_1_MEM_1G = ''1vcpu_1024mb''"
| "MachineConfig_str VCPU_2_MEM_1G = ''2vcpu_1024mb''"

definition MachineConfig_from_str :: "string \<Rightarrow> error + MachineConfig" where
  "MachineConfig_from_str raw_str =
     (if raw_str = ''1vcpu_1024mb.json'' then Inr VCPU_1_MEM_1G
      else if raw_str = ''2vcpu_1024mb.json'' then Inr VCPU_2_MEM_1G
      else Inl (Exception (''Unknown machine configuration: '' @ raw_str)))"

subsection \<open>Metric\<close>

datatype Metric = CPU_TOTAL | CPU_IO | THROUGHPUT

fun Metric_str :: "Metric \<Rightarrow> string" where
  "Metric_str CPU_TOTAL = ''cpu_utilization_vcpus_total''"
| "Metric_str CPU_IO = ''cpu_utilization_vmm''"
| "Metric_str THROUGHPUT = ''throughput''"

definition Metric_from_str :: "string \<Rightarrow> error + Metric" where
  "Metric_from_str raw_str =
     (if raw_str = ''cpu_utilization_vcpus_total'' then Inr CPU_TOTAL
      else if raw_str = ''cpu_utilization_vmm'' then Inr CPU_IO
      else if raw_str = ''throughput'' then Inr THROUGHPUT
      else Inl (Exception (''Unknown metric '' @ raw_str)))"

subsection \<open>KernelVersion\<close>

datatype KernelVersion = KERNEL_5_10 | KERNEL_4_14

fun KernelVersion_str :: "KernelVersion \<Rightarrow> string" where
  "KernelVersion_str KERNEL_5_10 = ''5.10''"
| "KernelVersion_str KERNEL_4_14 = ''4.14''"

definition KernelVersion_from_str :: "string \<Rightarrow> error + KernelVersion" where
  "KernelVersion_from_str raw_str =
     (if raw_str \<in> set [''5.10'', ''vmlinux-5.10.bin''] then Inr KERNEL_5_10
      else if raw_str \<in> set [''4.14'', ''vmlinux-4.14.bin''] then Inr KERNEL_4_14
      else Inl (Exception (''Unknown kernel version: '' @ raw_str)))"

section \<open>The baseline loader: \<^verbatim>\<open>tools/print_baselines/utils/parser.py\<close>\<close>

subsection \<open>JSON values and the constructor\<close>

text \<open>
  \<open>json\<close> is what \<^verbatim>\<open>json.load\<close> returns. \<open>JObj\<close> is a Python dictionary as an association
  list in insertion order, each key once. \<open>getitem v k\<close> is the subscript \<^verbatim>\<open>v[k]\<close> with a
  string \<open>k\<close>: \<^verbatim>\<open>KeyError\<close> on a dictionary without the key, \<^verbatim>\<open>TypeError\<close> on every other
  value. Opening and decoding the file are outside the model: the constructor starts from
  the decoded document \<open>raw\<close>.
\<close>

datatype json =
    JNull
  | JBool bool
  | JNum real
  | JStr string
  | JArr "json list"
  | JObj "(string \<times> json) list"

fun getitem :: "json \<Rightarrow> string \<Rightarrow> error + json" where
  "getitem (JObj d) k = (case map_of d k of None \<Rightarrow> Inl KeyError | Some v \<Rightarrow> Inr v)"
| "getitem _ k = Inl TypeError"

text \<open>
  The tree \<^verbatim>\<open>_parse_data\<close> builds: nested dictionaries keyed by the dimension values, with
  the container the extraction function filled at each machine configuration.
\<close>

type_synonym 'c machine_config_dict = "(MachineConfig \<times> 'c) list"
type_synonym 'c os_dict = "(GuestOs \<times> 'c machine_config_dict) list"
type_synonym 'c guest_kernels_dict = "(KernelVersion \<times> 'c os_dict) list"
type_synonym 'c metrics_dict = "(Metric \<times> 'c guest_kernels_dict) list"
type_synonym 'c instances_dict = "(CpuModel \<times> 'c metrics_dict) list"

record 'c BaselineParser =
  meta :: "(string \<times> json) list"
  baselines :: json
  instances :: "'c instances_dict"
  host_kernel :: KernelVersion
  git_version :: string

text \<open>
  \<^verbatim>\<open>BaselineParser.__init__\<close>. \<^verbatim>\<open>raw.keys()\<close> needs a dictionary (\<^verbatim>\<open>AttributeError\<close>
  otherwise); the metadata is computed before \<^verbatim>\<open>raw['hosts']['instances']\<close> is read.
\<close>

definition BaselineParser_init ::
  "json \<Rightarrow> KernelVersion \<Rightarrow> string \<Rightarrow> error + 'c BaselineParser" where
  "BaselineParser_init raw hk gv =
     (case raw of
        JObj d \<Rightarrow>
          if ''hosts'' \<notin> set (map fst d) then Inl (Exception ''Malformed baseline file'')
          else
            (let m = filter (\<lambda>(x, v). x \<noteq> ''hosts'') d in
             case getitem raw ''hosts'' of
               Inl e \<Rightarrow> Inl e
             | Inr hosts \<Rightarrow>
                 (case getitem hosts ''instances'' of
                    Inl e \<Rightarrow> Inl e
                  | Inr b \<Rightarrow>
                      Inr \<lparr>meta = m, baselines = b, instances = [],
                           host_kernel = hk, git_version = gv\<rparr>))
      | _ \<Rightarrow> Inl AttributeError)"

subsection \<open>\<^verbatim>\<open>_parse_data\<close>\<close>

text \<open>
  \<^verbatim>\<open>_parse_data\<close> walks \<^verbatim>\<open>self._baselines\<close> at the shape of a baseline file: instance type
  \<open>\<rightarrow>\<close> list of CPU entries (\<^verbatim>\<open>model\<close>, \<^verbatim>\<open>baselines\<close>) \<open>\<rightarrow>\<close> metric \<open>\<rightarrow>\<close> guest kernel \<open>\<rightarrow>\<close>
  root file system \<open>\<rightarrow>\<close> machine configuration \<open>\<rightarrow>\<close> statistic kind \<open>\<rightarrow>\<close> data. The types
  below are that shape, every dictionary an association list in iteration order; \<open>'d\<close> is
  the data handed to the extraction function. \<open>parse_data\<close> below takes the value of
  \<^verbatim>\<open>self._baselines\<close> read at this shape. Values of another shape (on which the
  subscripts and loops of the source raise) are not values of these types.
\<close>

type_synonym 'd config_leaf = "(string \<times> 'd) list"
type_synonym 'd configs = "(string \<times> 'd config_leaf) list"
type_synonym 'd userspaces = "(string \<times> 'd configs) list"
type_synonym 'd guest_kernels = "(string \<times> 'd userspaces) list"
type_synonym 'd metrics = "(string \<times> 'd guest_kernels) list"

record 'd cpu_entry =
  cpu_model :: string
  cpu_baselines :: "'d metrics"

type_synonym 'd baselines_data = "(string \<times> 'd cpu_entry list) list"

text \<open>
  A \<^verbatim>\<open>for\<close> loop whose body updates the loop's state and may raise: the first exception
  ends the loop.
\<close>

fun for_each :: "('a \<Rightarrow> 's \<Rightarrow> error + 's) \<Rightarrow> 'a list \<Rightarrow> 's \<Rightarrow> error + 's" where
  "for_each body [] s = Inr s"
| "for_each body (x # xs) s =
     (case body x s of Inl e \<Rightarrow> Inl e | Inr s' \<Rightarrow> for_each body xs s')"

text \<open>
  The body of the innermost loop. The list of the leaf's keys must have length one
  (\<^verbatim>\<open>assert\<close>); then the configuration name is parsed, and the extraction function
  \<open>parser\<close> fills a fresh container that is stored under the configuration. The extraction
  function is the caller's: \<open>parser data\<close> is the container it leaves, or what it raises.
  A dictionary assignment \<^verbatim>\<open>d[k] = v\<close> is \<open>AList.update k v d\<close>: it replaces the value of
  a key that is present and appends a new key.
\<close>

definition parse_config ::
  "('d \<Rightarrow> error + 'c) \<Rightarrow> string \<times> 'd config_leaf \<Rightarrow> 'c machine_config_dict
     \<Rightarrow> error + 'c machine_config_dict" where
  "parse_config parser entry machine_config =
     (case snd entry of
        [(metric_type, data)] \<Rightarrow>
          (case MachineConfig_from_str (fst entry) of
             Inl e \<Rightarrow> Inl e
           | Inr config \<Rightarrow>
               (case parser data of
                  Inl e \<Rightarrow> Inl e
                | Inr container \<Rightarrow> Inr (AList.update config container machine_config)))
      | _ \<Rightarrow> Inl AssertionError)"

definition parse_userspace ::
  "('d \<Rightarrow> error + 'c) \<Rightarrow> string \<times> 'd configs \<Rightarrow> 'c os_dict \<Rightarrow> error + 'c os_dict" where
  "parse_userspace parser entry os =
     (case for_each (parse_config parser) (snd entry) [] of
        Inl e \<Rightarrow> Inl e
      | Inr machine_config \<Rightarrow>
          (case GuestOs_from_str (fst entry) of
             Inl e \<Rightarrow> Inl e
           | Inr userspace \<Rightarrow> Inr (AList.update userspace machine_config os)))"

definition parse_guest_kernel ::
  "('d \<Rightarrow> error + 'c) \<Rightarrow> string \<times> 'd userspaces \<Rightarrow> 'c guest_kernels_dict
     \<Rightarrow> error + 'c guest_kernels_dict" where
  "parse_guest_kernel parser entry guest_kernels =
     (case for_each (parse_userspace parser) (snd entry) [] of
        Inl e \<Rightarrow> Inl e
      | Inr os \<Rightarrow>
          (case KernelVersion_from_str (fst entry) of
             Inl e \<Rightarrow> Inl e
           | Inr guest_kernel \<Rightarrow> Inr (AList.update guest_kernel os guest_kernels)))"

definition parse_metric ::
  "('d \<Rightarrow> error + 'c) \<Rightarrow> string \<times> 'd guest_kernels \<Rightarrow> 'c metrics_dict
     \<Rightarrow> error + 'c metrics_dict" where
  "parse_metric parser entry metrics =
     (case for_each (parse_guest_kernel parser) (snd entry) [] of
        Inl e \<Rightarrow> Inl e
      | Inr guest_kernels \<Rightarrow>
          (case Metric_from_str (fst entry) of
             Inl e \<Rightarrow> Inl e
           | Inr metric \<Rightarrow> Inr (AList.update metric guest_kernels metrics)))"

definition parse_cpu ::
  "('d \<Rightarrow> error + 'c) \<Rightarrow> string \<Rightarrow> 'd cpu_entry \<Rightarrow> 'c instances_dict
     \<Rightarrow> error + 'c instances_dict" where
  "parse_cpu parser instance_type cpu insts =
     (case for_each (parse_metric parser) (cpu_baselines cpu) [] of
        Inl e \<Rightarrow> Inl e
      | Inr metrics \<Rightarrow>
          (case CpuModel_from_str instance_type (cpu_model cpu) of
             Inl e \<Rightarrow> Inl e
           | Inr m \<Rightarrow> Inr (AList.update m metrics insts)))"

definition parse_instance ::
  "('d \<Rightarrow> error + 'c) \<Rightarrow> string \<times> 'd cpu_entry list \<Rightarrow> 'c instances_dict
     \<Rightarrow> error + 'c instances_dict" where
  "parse_instance parser entry insts =
     for_each (parse_cpu parser (fst entry)) (snd entry) insts"

text \<open>\<^verbatim>\<open>_parse_data(parser)\<close>: the new value of \<^verbatim>\<open>self._instances\<close>, or the exception.\<close>

definition parse_data ::
  "('d \<Rightarrow> error + 'c) \<Rightarrow> 'd baselines_data \<Rightarrow> error + 'c instances_dict" where
  "parse_data parser b = for_each (parse_instance parser) b []"

text \<open>
  The configuration leaves of a document (the dictionaries from statistic kind to data),
  level by level in the order the loops reach them; and the leaves of a tree with their
  full coordinates.
\<close>

definition userspace_leaves :: "string \<times> 'd configs \<Rightarrow> 'd config_leaf list" where
  "userspace_leaves userspace = map snd (snd userspace)"

definition guest_kernel_leaves :: "string \<times> 'd userspaces \<Rightarrow> 'd config_leaf list" where
  "guest_kernel_leaves guest_kernel = concat (map userspace_leaves (snd guest_kernel))"

definition metric_leaves :: "string \<times> 'd guest_kernels \<Rightarrow> 'd config_leaf list" where
  "metric_leaves metric = concat (map guest_kernel_leaves (snd metric))"

definition cpu_leaves :: "'d cpu_entry \<Rightarrow> 'd config_leaf list" where
  "cpu_leaves cpu = concat (map metric_leaves (cpu_baselines cpu))"

definition config_leaves :: "'d baselines_data \<Rightarrow> 'd config_leaf list" where
  "config_leaves b = concat (map (\<lambda>inst. concat (map cpu_leaves (snd inst))) b)"

definition flatten :: "('v \<Rightarrow> ('c \<times> 'x) list) \<Rightarrow> ('k \<times> 'v) list \<Rightarrow> (('k \<times> 'c) \<times> 'x) list" where
  "flatten g d = concat (map (\<lambda>(k, v). map (\<lambda>(c, x). ((k, c), x)) (g v)) d)"

definition tree_leaves ::
  "'c instances_dict
     \<Rightarrow> ((CpuModel \<times> Metric \<times> KernelVersion \<times> GuestOs \<times> MachineConfig) \<times> 'c) list" where
  "tree_leaves t = flatten (flatten (flatten (flatten (\<lambda>machine_config. machine_config)))) t"

text \<open>
  Every external token of the document has a canonical value: the pair of instance type
  and CPU description of every CPU entry, and every metric, guest kernel, root file
  system and machine configuration key.
\<close>

definition config_known :: "string \<times> 'd config_leaf \<Rightarrow> bool" where
  "config_known config \<longleftrightarrow> \<not> isl (MachineConfig_from_str (fst config))"

definition userspace_known :: "string \<times> 'd configs \<Rightarrow> bool" where
  "userspace_known userspace \<longleftrightarrow>
     \<not> isl (GuestOs_from_str (fst userspace))
     \<and> (\<forall>config \<in> set (snd userspace). config_known config)"

definition guest_kernel_known :: "string \<times> 'd userspaces \<Rightarrow> bool" where
  "guest_kernel_known guest_kernel \<longleftrightarrow>
     \<not> isl (KernelVersion_from_str (fst guest_kernel))
     \<and> (\<forall>userspace \<in> set (snd guest_kernel). userspace_known userspace)"

definition metric_known :: "string \<times> 'd guest_kernels \<Rightarrow> bool" where
  "metric_known metric \<longleftrightarrow>
     \<not> isl (Metric_from_str (fst metric))
     \<and> (\<forall>guest_kernel \<in> set (snd metric). guest_kernel_known guest_kernel)"

definition cpu_known :: "string \<Rightarrow> 'd cpu_entry \<Rightarrow> bool" where
  "cpu_known instance_type cpu \<longleftrightarrow>
     \<not> isl (CpuModel_from_str instance_type (cpu_model cpu))
     \<and> (\<forall>metric \<in> set (cpu_baselines cpu). metric_known metric)"

definition tokens_known :: "'d baselines_data \<Rightarrow> bool" where
  "tokens_known b \<longleftrightarrow> (\<forall>inst \<in> set b. \<forall>cpu \<in> set (snd inst). cpu_known (fst inst) cpu)"

text \<open>A dictionary whose keys are pairwise different and whose values satisfy \<open>P\<close>.\<close>

definition dict_inv :: "('v \<Rightarrow> bool) \<Rightarrow> ('k \<times> 'v) list \<Rightarrow> bool" where
  "dict_inv P d \<longleftrightarrow> distinct (map fst d) \<and> (\<forall>v \<in> snd ` set d. P v)"

subsection \<open>The extraction function of \<^verbatim>\<open>net_throughput.py\<close>\<close>

text \<open>
  \<^verbatim>\<open>NetworkTCPThroughput.parser(data, container)\<close>. \<open>data\<close> maps a test type to its
  \<^verbatim>\<open>delta_percentage\<close> and \<^verbatim>\<open>target\<close>; the container gets one entry per direction, each
  with the values of the test types whose name contains the direction's tag
  (\<^verbatim>\<open>"h2g" in type\<close> is the substring test). Numbers are reals.
\<close>

record baseline_stat =
  delta_percentage :: real
  target :: real

record direction_stats =
  test_types :: "string list option"
  delta_percentages :: "real list"
  targets :: "real list"

definition NetworkTCPThroughput_parser ::
  "(string \<times> baseline_stat) list \<Rightarrow> error + (string \<times> direction_stats) list" where
  "NetworkTCPThroughput_parser data =
     (let h2g = \<lparr>test_types = None,
                 delta_percentages =
                   map (\<lambda>e. delta_percentage (snd e)) (filter (\<lambda>e. sublist ''h2g'' (fst e)) data),
                 targets = map (\<lambda>e. target (snd e)) (filter (\<lambda>e. sublist ''h2g'' (fst e)) data)\<rparr>;
          g2h = \<lparr>test_types = None,
                 delta_percentages =
                   map (\<lambda>e. delta_percentage (snd e)) (filter (\<lambda>e. sublist ''g2h'' (fst e)) data),
                 targets = map (\<lambda>e. target (snd e)) (filter (\<lambda>e. sublist ''g2h'' (fst e)) data)\<rparr>;
          bd = \<lparr>test_types = Some (map fst (filter (\<lambda>e. sublist ''bd'' (fst e)) data)),
                delta_percentages =
                  map (\<lambda>e. delta_percentage (snd e)) (filter (\<lambda>e. sublist ''bd'' (fst e)) data),
                targets = map (\<lambda>e. target (snd e)) (filter (\<lambda>e. sublist ''bd'' (fst e)) data)\<rparr>
      in Inr (AList.update ''bidirectional'' bd
           (AList.update ''guest-to-host'' g2h
             (AList.update ''host-to-guest'' h2g []))))"

subsection \<open>Example documents\<close>

text \<open>
  The data of one test type, and four documents for instance type \<^verbatim>\<open>m5d.metal\<close>: one
  whose second configuration leaf has two statistic kinds, one whose first configuration
  name is unknown and whose second leaf has two statistic kinds, one where every leaf
  has one statistic kind, and one with two CPU entries of the same CPU description.
\<close>

definition stat_data :: "real \<Rightarrow> (string \<times> baseline_stat) list" where
  "stat_data t = [(''tcp-p1024K-ws16K-g2h'', \<lparr>delta_percentage = 10, target = t\<rparr>)]"

definition two_kinds_document :: "(string \<times> baseline_stat) list baselines_data" where
  "two_kinds_document =
     [(''m5d.metal'',
       [\<lparr>cpu_model = ''Intel(R) Xeon(R) Platinum 8175M CPU @ 2.50GHz'',
         cpu_baselines =
           [(''throughput'', [(''vmlinux-5.10.bin'', [(''ubuntu-18.04.ext4'',
              [(''1vcpu_1024mb.json'', [(''Avg'', stat_data 100)]),
               (''2vcpu_1024mb.json'',
                  [(''Avg'', stat_data 100), (''Max'', stat_data 120)])])])])]\<rparr>])]"

definition unknown_config_document :: "(string \<times> baseline_stat) list baselines_data" where
  "unknown_config_document =
     [(''m5d.metal'',
       [\<lparr>cpu_model = ''Intel(R) Xeon(R) Platinum 8175M CPU @ 2.50GHz'',
         cpu_baselines =
           [(''throughput'', [(''vmlinux-5.10.bin'', [(''ubuntu-18.04.ext4'',
              [(''4vcpu_1024mb.json'', [(''Avg'', stat_data 100)]),
               (''2vcpu_1024mb.json'',
                  [(''Avg'', stat_data 100), (''Max'', stat_data 120)])])])])]\<rparr>])]"

definition single_kind_document :: "(string \<times> baseline_stat) list baselines_data" where
  "single_kind_document =
     [(''m5d.metal'',
       [\<lparr>cpu_model = ''Intel(R) Xeon(R) Platinum 8175M CPU @ 2.50GHz'',
         cpu_baselines =
           [(''throughput'', [(''vmlinux-5.10.bin'', [(''ubuntu-18.04.ext4'',
              [(''1vcpu_1024mb.json'', [(''Avg'', stat_data 100)]),
               (''2vcpu_1024mb.json'', [(''Avg'', stat_data 120)])])])])]\<rparr>])]"

definition skylake_cpu :: "real \<Rightarrow> (string \<times> baseline_stat) list cpu_entry" where
  "skylake_cpu t =
     \<lparr>cpu_model = ''Intel(R) Xeon(R) Platinum 8175M CPU @ 2.50GHz'',
      cpu_baselines =
        [(''throughput'', [(''vmlinux-5.10.bin'', [(''ubuntu-18.04.ext4'',
           [(''2vcpu_1024mb.json'', [(''Avg'', stat_data t)])])])])]\<rparr>"

definition duplicate_cpu_document :: "(string \<times> baseline_stat) list baselines_data" where
  "duplicate_cpu_document = [(''m5d.metal'', [skylake_cpu 100, skylake_cpu 105])]"

section \<open>Git worktrees: \<^verbatim>\<open>utils/git_worktree.py\<close> and \<^verbatim>\<open>compare_baselines/main.py\<close>\<close>

text \<open>
  The sources run \<^verbatim>\<open>git\<close> through \<^verbatim>\<open>subprocess\<close>. What the commands do to the file system is
  the state \<open>git\<close>: the references \<^verbatim>\<open>git rev-parse\<close> resolves (with the commit hash of
  each), the hash of \<^verbatim>\<open>HEAD\<close>, and the paths of the worktrees that exist. A command returns
  its output, or \<open>CalledProcessError\<close> for a non-zero exit status (every call of the
  sources passes \<^verbatim>\<open>check=True\<close> or uses \<^verbatim>\<open>check_output\<close>), together with the new state.
  \<^verbatim>\<open>git worktree add path commit\<close> fails when the path is taken or the commit unknown;
  \<^verbatim>\<open>git worktree remove path\<close> fails when there is no such worktree.
\<close>

record git =
  revs :: "(string \<times> string) list"
  head_hash :: string
  worktrees :: "string list"

definition git_rev_parse :: "string \<Rightarrow> git \<Rightarrow> (error + string) \<times> git" where
  "git_rev_parse git_ref g =
     (case map_of (revs g) git_ref of
        None \<Rightarrow> (Inl CalledProcessError, g)
      | Some h \<Rightarrow> (Inr h, g))"

definition git_show_head :: "git \<Rightarrow> (error + string) \<times> git" where
  "git_show_head g = (Inr (head_hash g), g)"

definition git_worktree_add :: "string \<Rightarrow> string \<Rightarrow> git \<Rightarrow> (error + unit) \<times> git" where
  "git_worktree_add path commit g =
     (if path \<in> set (worktrees g) \<or> map_of (revs g) commit = None
      then (Inl CalledProcessError, g)
      else (Inr (), g\<lparr>worktrees := worktrees g @ [path]\<rparr>))"

definition git_worktree_remove :: "string \<Rightarrow> git \<Rightarrow> (error + unit) \<times> git" where
  "git_worktree_remove path g =
     (if path \<notin> set (worktrees g) then (Inl CalledProcessError, g)
      else (Inr (), g\<lparr>worktrees := removeAll path (worktrees g)\<rparr>))"

subsection \<open>The context manager \<^verbatim>\<open>GitWorktree\<close>\<close>

text \<open>\<^verbatim>\<open>__enter__\<close> resolves the reference and adds a worktree named by the hash.\<close>

definition GitWorktree_enter :: "string \<Rightarrow> git \<Rightarrow> (error + string) \<times> git" where
  "GitWorktree_enter git_ref g =
     (case git_rev_parse git_ref g of
        (Inl e, g1) \<Rightarrow> (Inl e, g1)
      | (Inr h, g1) \<Rightarrow>
          (case git_worktree_add h h g1 of
             (Inl e, g2) \<Rightarrow> (Inl e, g2)
           | (Inr u, g2) \<Rightarrow> (Inr h, g2)))"

definition GitWorktree_exit :: "string \<Rightarrow> git \<Rightarrow> (error + unit) \<times> git" where
  "GitWorktree_exit h g = git_worktree_remove h g"

text \<open>
  \<^verbatim>\<open>with GitWorktree(git_ref) as worktree: body\<close>. When \<^verbatim>\<open>__enter__\<close> raises the body and
  \<^verbatim>\<open>__exit__\<close> do not run. Otherwise \<^verbatim>\<open>__exit__\<close> runs after the body, whether the body
  returned or raised; it returns \<^verbatim>\<open>None\<close>, so an exception of the body goes on, and an
  exception of \<^verbatim>\<open>__exit__\<close> itself replaces the body's result.
\<close>

definition with_GitWorktree ::
  "string \<Rightarrow> (string \<Rightarrow> git \<Rightarrow> (error + 'a) \<times> git) \<Rightarrow> git \<Rightarrow> (error + 'a) \<times> git" where
  "with_GitWorktree git_ref body g =
     (case GitWorktree_enter git_ref g of
        (Inl e, g1) \<Rightarrow> (Inl e, g1)
      | (Inr h, g1) \<Rightarrow>
          (case body h g1 of
             (r, g2) \<Rightarrow>
               (case GitWorktree_exit h g2 of
                  (Inl e, g3) \<Rightarrow> (Inl e, g3)
                | (Inr u, g3) \<Rightarrow> (r, g3))))"

subsection \<open>The commands \<^verbatim>\<open>commit\<close> and \<^verbatim>\<open>latest\<close>\<close>

text \<open>
  \<^verbatim>\<open>os.path.join\<close> of two components. \<^verbatim>\<open>DirectoryComparator\<close> (\<^verbatim>\<open>utils/comparator.py\<close>) and
  \<^verbatim>\<open>DEFAULT_BASELINE_DIRECTORY\<close> (\<^verbatim>\<open>utils/defs.py\<close>) are not among the sources; the commands
  take them as parameters: \<open>new_comparator source_dir target_dir\<close> is the constructor call,
  which returns a comparator or raises, \<open>report cmp\<close> is \<^verbatim>\<open>comp.compare(...)\<close> followed by
  \<^verbatim>\<open>comp.dump_json(...)\<close>, and \<open>basedir\<close> is the directory constant.
\<close>

definition os_path_join :: "string \<Rightarrow> string \<Rightarrow> string" where
  "os_path_join a b =
     (if b \<noteq> [] \<and> hd b = CHR ''/'' then b
      else if a = [] \<or> last a = CHR ''/'' then a @ b
      else a @ ''/'' @ b)"

record commit_args =
  arg_source :: string
  arg_target :: "string option"

definition cmd_commit ::
  "(string \<Rightarrow> string \<Rightarrow> error + 'comp) \<Rightarrow> ('comp \<Rightarrow> error + 'out) \<Rightarrow> string
     \<Rightarrow> commit_args \<Rightarrow> git \<Rightarrow> (error + 'out) \<times> git" where
  "cmd_commit new_comparator report basedir args g =
     (case (case arg_target args of
              None \<Rightarrow> git_show_head g
            | Some t \<Rightarrow> (Inr t, g)) of
        (Inl e, g0) \<Rightarrow> (Inl e, g0)
      | (Inr tgt, g0) \<Rightarrow>
     (case git_worktree_add (arg_source args) (arg_source args) g0 of
        (Inl e, g1) \<Rightarrow> (Inl e, g1)
      | (Inr u, g1) \<Rightarrow>
     (case git_worktree_add tgt tgt g1 of
        (Inl e, g2) \<Rightarrow> (Inl e, g2)
      | (Inr u, g2) \<Rightarrow>
     (case new_comparator (os_path_join (arg_source args) basedir) (os_path_join tgt basedir) of
        Inl e \<Rightarrow> (Inl e, g2)
      | Inr cmp \<Rightarrow>
     (case git_worktree_remove (arg_source args) g2 of
        (Inl e, g3) \<Rightarrow> (Inl e, g3)
      | (Inr u, g3) \<Rightarrow>
     (case git_worktree_remove tgt g3 of
        (Inl e, g4) \<Rightarrow> (Inl e, g4)
      | (Inr u, g4) \<Rightarrow> (report cmp, g4)))))))"

definition cmd_latest ::
  "(string \<Rightarrow> string \<Rightarrow> error + 'comp) \<Rightarrow> ('comp \<Rightarrow> error + 'out) \<Rightarrow> string
     \<Rightarrow> git \<Rightarrow> (error + 'out) \<times> git" where
  "cmd_latest new_comparator report basedir g =
     (case git_show_head g of
        (Inl e, g0) \<Rightarrow> (Inl e, g0)
      | (Inr latest_hash, g0) \<Rightarrow>
     (case git_worktree_add latest_hash latest_hash g0 of
        (Inl e, g1) \<Rightarrow> (Inl e, g1)
      | (Inr u, g1) \<Rightarrow>
     (case new_comparator (os_path_join latest_hash basedir) basedir of
        Inl e \<Rightarrow> (Inl e, g1)
      | Inr cmp \<Rightarrow>
     (case git_worktree_remove latest_hash g1 of
        (Inl e, g2) \<Rightarrow> (Inl e, g2)
      | (Inr u, g2) \<Rightarrow> (report cmp, g2)))))"

text \<open>
  A repository with two commits and no worktree, and a comparator constructor that
  raises, as the loader does on a baseline file without \<^verbatim>\<open>hosts\<close>.
\<close>

definition two_commit_repo :: git where
  "two_commit_repo =
     \<lparr>revs = [(''1a2b3c'', ''1a2b3c''), (''4d5e6f'', ''4d5e6f''), (''HEAD'', ''4d5e6f'')],
      head_hash = ''4d5e6f'', worktrees = []\<rparr>"

definition failing_comparator :: "string \<Rightarrow> string \<Rightarrow> error + unit" where
  "failing_comparator source_dir target_dir = Inl (Exception ''Malformed baseline file'')"

section \<open>Comparison values and rendering: \<^verbatim>\<open>compare_baselines/output_images.py\<close>\<close>

subsection \<open>The comparison record\<close>

text \<open>
  Modelled from the spec: the comparator (\<^verbatim>\<open>utils/comparator.py\<close>) that computes the
  comparison values is not among the sources. The two values are defined as the
  specification words them: \<^verbatim>\<open>target_diff_percentage\<close> is
  \<^verbatim>\<open>(comparison.target / basis.target) * 100\<close> when the basis target is not zero and
  absent otherwise, and \<^verbatim>\<open>delta_percentage_diff\<close> is
  \<^verbatim>\<open>comparison.delta_percentage - basis.delta_percentage\<close>. A leaf is a \<open>baseline_stat\<close>;
  numbers are reals.
\<close>

definition target_diff_percentage :: "baseline_stat \<Rightarrow> baseline_stat \<Rightarrow> real option" where
  "target_diff_percentage basis comparison =
     (if target basis = 0 then None else Some (target comparison / target basis * 100))"

definition delta_percentage_diff :: "baseline_stat \<Rightarrow> baseline_stat \<Rightarrow> real" where
  "delta_percentage_diff basis comparison =
     delta_percentage comparison - delta_percentage basis"

subsection \<open>\<^verbatim>\<open>output_images\<close> and \<^verbatim>\<open>main\<close>\<close>

text \<open>
  The report the renderer reads, at the shape its subscripts use: each entry has a test,
  a kernel and, per metric and per key, a list of values with \<^verbatim>\<open>model\<close>, \<^verbatim>\<open>mean\<close> and
  \<^verbatim>\<open>stdev\<close>. A \<open>figure\<close> is what one round of the loop hands to \<^verbatim>\<open>matplotlib\<close> and saves.
  \<^verbatim>\<open>MODEL2SHORT\<close> (\<^verbatim>\<open>utils/defs.py\<close>) is not among the sources and is the parameter \<open>m2s\<close>.
  Numbers are reals.
\<close>

record cpu_stat =
  stat_model :: string
  stat_mean :: real
  stat_stdev :: real

record report_entry =
  entry_test :: string
  entry_kernel :: string
  entry_stats :: "(string \<times> (string \<times> cpu_stat list) list) list"

record figure =
  fig_title :: string
  fig_ylabel :: string
  fig_labels :: "string list"
  fig_x :: "nat list"
  fig_y :: "real list"
  fig_yerr :: "real list"
  fig_path :: string

text \<open>\<^verbatim>\<open>d[k]\<close> of a dictionary and \<^verbatim>\<open>xs[0]\<close> of a list.\<close>

definition dict_get :: "('k \<times> 'v) list \<Rightarrow> 'k \<Rightarrow> error + 'v" where
  "dict_get d k = (case map_of d k of None \<Rightarrow> Inl KeyError | Some v \<Rightarrow> Inr v)"

definition first_item :: "'a list \<Rightarrow> error + 'a" where
  "first_item xs = (case xs of [] \<Rightarrow> Inl IndexError | x # _ \<Rightarrow> Inr x)"

text \<open>The labels of the inner loop: the first model without a short name raises.\<close>

fun short_labels :: "(string \<times> string) list \<Rightarrow> cpu_stat list \<Rightarrow> error + string list" where
  "short_labels m2s [] = Inr []"
| "short_labels m2s (cpu # cpus) =
     (case dict_get m2s (stat_model cpu) of
        Inl e \<Rightarrow> Inl e
      | Inr l \<Rightarrow> (case short_labels m2s cpus of Inl e \<Rightarrow> Inl e | Inr ls \<Rightarrow> Inr (l # ls)))"

text \<open>One round of the loop over the metrics of an entry: the figure it saves.\<close>

definition plot_metric ::
  "(string \<times> string) list \<Rightarrow> string \<Rightarrow> string \<Rightarrow> real \<Rightarrow> report_entry
     \<Rightarrow> string \<times> (string \<times> cpu_stat list) list \<Rightarrow> error + figure" where
  "plot_metric m2s dpath key base raw stat =
     (case dict_get (snd stat) key of
        Inl e \<Rightarrow> Inl e
      | Inr cpus \<Rightarrow>
     (case short_labels m2s cpus of
        Inl e \<Rightarrow> Inl e
      | Inr labels \<Rightarrow>
     (case first_item cpus of
        Inl e \<Rightarrow> Inl e
      | Inr cpu0 \<Rightarrow>
     (case dict_get m2s (stat_model cpu0) of
        Inl e \<Rightarrow> Inl e
      | Inr short0 \<Rightarrow>
          Inr \<lparr>fig_title = fst stat @ '' - '' @ key,
               fig_ylabel = ''% on basis of '' @ short0,
               fig_labels = labels,
               fig_x = [0 ..< length cpus],
               fig_y = map (\<lambda>cpu. stat_mean cpu + base) cpus,
               fig_yerr = map stat_stdev cpus,
               fig_path = os_path_join dpath
                 (entry_test raw @ ''_'' @ entry_kernel raw @ ''_'' @ fst stat @ ''_'' @ key
                    @ ''.png'')\<rparr>))))"

text \<open>
  A sequence of rounds that each save a figure or raise: the figures saved before the
  first exception stay saved.
\<close>

fun save_until_error :: "(error + figure) list \<Rightarrow> error option \<times> figure list" where
  "save_until_error [] = (None, [])"
| "save_until_error (Inl e # rounds) = (Some e, [])"
| "save_until_error (Inr fig # rounds) =
     (case save_until_error rounds of (r, figs) \<Rightarrow> (r, fig # figs))"

definition output_images ::
  "(string \<times> string) list \<Rightarrow> (string \<times> report_entry) list \<Rightarrow> string \<Rightarrow> string \<Rightarrow> real
     \<Rightarrow> error option \<times> figure list" where
  "output_images m2s result dpath key base =
     save_until_error
       (concat (map (\<lambda>raw. map (plot_metric m2s dpath key base raw) (entry_stats raw))
          (map snd result)))"

text \<open>
  The loop of \<^verbatim>\<open>main\<close> over its two pairs of key and base, after the report has been read:
  the second pair does not run when the first raises.
\<close>

definition key_bases :: "(string \<times> real) list" where
  "key_bases = [(''target_diff_percentage'', 100), (''delta_percentage_diff'', 0)]"

fun output_all ::
  "(string \<times> string) list \<Rightarrow> (string \<times> report_entry) list \<Rightarrow> string \<Rightarrow> (string \<times> real) list
     \<Rightarrow> error option \<times> figure list" where
  "output_all m2s result dpath [] = (None, [])"
| "output_all m2s result dpath ((key, base) # pairs) =
     (case output_images m2s result dpath key base of
        (Some e, figs) \<Rightarrow> (Some e, figs)
      | (None, figs) \<Rightarrow>
          (case output_all m2s result dpath pairs of (r, figs') \<Rightarrow> (r, figs @ figs')))"

definition main_images ::
  "(string \<times> string) list \<Rightarrow> (string \<times> report_entry) list \<Rightarrow> string
     \<Rightarrow> error option \<times> figure list" where
  "main_images m2s result dpath = output_all m2s result dpath key_bases"

text \<open>
  The rounds of the two nested loops of \<^verbatim>\<open>output_images\<close> in order: every entry of the
  report with every metric of its \<^verbatim>\<open>stats\<close>. \<open>plots key base fig rnd\<close> says that \<open>fig\<close>
  is the bar chart of the round \<open>rnd\<close> for \<open>key\<close>: its heights are the means of the values under
  \<open>key\<close> with \<open>base\<close> added, its error bars their standard deviations. A report is
  renderable when every round has a non-empty list of values under both keys and every
  model has a short name.
\<close>

definition report_rounds ::
  "(string \<times> report_entry) list
     \<Rightarrow> (report_entry \<times> (string \<times> (string \<times> cpu_stat list) list)) list" where
  "report_rounds result = concat (map (\<lambda>raw. map (Pair raw) (entry_stats raw)) (map snd result))"

definition plots ::
  "string \<Rightarrow> real \<Rightarrow> figure \<Rightarrow> report_entry \<times> (string \<times> (string \<times> cpu_stat list) list)
     \<Rightarrow> bool" where
  "plots key base fig rnd =
     (case dict_get (snd (snd rnd)) key of
        Inl e \<Rightarrow> False
      | Inr cpus \<Rightarrow>
          fig_y fig = map (\<lambda>cpu. stat_mean cpu + base) cpus
          \<and> fig_yerr fig = map stat_stdev cpus
          \<and> fig_title fig = fst (snd rnd) @ '' - '' @ key)"

definition renderable :: "(string \<times> string) list \<Rightarrow> (string \<times> report_entry) list \<Rightarrow> bool" where
  "renderable m2s result =
     list_all (\<lambda>rnd.
       list_all (\<lambda>key.
         case dict_get (snd (snd rnd)) key of
           Inl e \<Rightarrow> False
         | Inr cpus \<Rightarrow> cpus \<noteq> [] \<and> list_all (\<lambda>cpu. stat_model cpu \<in> set (map fst m2s)) cpus)
         [''target_diff_percentage'', ''delta_percentage_diff''])
       (report_rounds result)"

text \<open>
  A report with one entry: the comparison values of the specification's example (basis
  target 100 and tolerance 10, comparison target 105 and tolerance 12) for one CPU model.
\<close>

definition example_report :: "(string \<times> report_entry) list" where
  "example_report =
     [(''network_tcp_throughput_5.10'',
       \<lparr>entry_test = ''network_tcp_throughput'', entry_kernel = ''5.10'',
        entry_stats =
          [(''throughput'',
            [(''target_diff_percentage'',
                [\<lparr>stat_model = ''m5d.metal'', stat_mean = 105, stat_stdev = 0\<rparr>]),
             (''delta_percentage_diff'',
                [\<lparr>stat_model = ''m5d.metal'', stat_mean = 2, stat_stdev = 0\<rparr>])])]\<rparr>)]"

section \<open>Properties of the dimension types\<close>

lemma lower_char_idem: "lower_char (lower_char c) = lower_char c"
  by (auto simp: lower_char_def Let_def)

lemma lower_idem: "lower (lower s) = lower s"
  by (simp add: lower_def lower_char_idem)

lemma lower_display_names:
  "lower ''SkyLake'' = ''skylake''" "lower ''CascadeLake'' = ''cascadelake''"
  "lower ''IceLake'' = ''icelake''" "lower ''Milan'' = ''milan''"
  "lower ''Graviton2'' = ''graviton2''" "lower ''Graviton3'' = ''graviton3''"
  "lower ''Graviton4'' = ''graviton4''"
  by code_simp+

text \<open>
  C8. \<^verbatim>\<open>KernelVersion.from_str\<close> accepts two spellings of each kernel: the numeric
  version and the name of the kernel binary both give the same enumeration value.
\<close>

theorem KernelVersion_from_str_spellings:
  "KernelVersion_from_str ''5.10'' = Inr KERNEL_5_10
   \<and> KernelVersion_from_str ''vmlinux-5.10.bin'' = Inr KERNEL_5_10
   \<and> KernelVersion_from_str ''4.14'' = Inr KERNEL_4_14
   \<and> KernelVersion_from_str ''vmlinux-4.14.bin'' = Inr KERNEL_4_14"
  by (simp add: KernelVersion_from_str_def)

subsection \<open>Case folding\<close>

lemma lower_char_capital:
  "\<forall>p \<in> set (zip ascii_uppercase ascii_lowercase).
     lower_char (fst p) = snd p \<and> lower_char (snd p) = snd p
     \<and> fst p \<notin> set (ascii_lowercase @ digits)"
  by code_simp

lemma lower_char_stable:
  "\<forall>l \<in> set (ascii_lowercase @ digits). lower_char l = l \<and> (of_char l :: nat) < 128"
  by code_simp

lemma capital_codes:
  "\<forall>n \<in> set [65 ..< 91].
     (char_of n, char_of (n + 32)) \<in> set (zip ascii_uppercase ascii_lowercase)"
  by code_simp

lemma lower_char_eq_iff:
  assumes "l \<in> set (ascii_lowercase @ digits)"
  shows "lower_char c = l \<longleftrightarrow> same_letter c l"
proof
  assume eq: "lower_char c = l"
  define n :: nat where "n = of_char c"
  have c: "c = char_of n" by (simp add: n_def)
  have n256: "n < 256" by (simp add: n_def)
  consider (ascii) "65 \<le> n \<and> n \<le> 90" | (latin) "192 \<le> n \<and> n \<le> 222 \<and> n \<noteq> 215"
    | (other) "\<not> ((65 \<le> n \<and> n \<le> 90) \<or> (192 \<le> n \<and> n \<le> 222 \<and> n \<noteq> 215))"
    by blast
  then show "same_letter c l"
  proof cases
    case ascii
    then have "n \<in> set [65 ..< 91]" by (simp only: set_upt atLeastLessThan_iff) arith
    with capital_codes have "(char_of n, char_of (n + 32)) \<in> set (zip ascii_uppercase ascii_lowercase)"
      by blast
    moreover from ascii eq have "l = char_of (n + 32)"
      by (auto simp: lower_char_def Let_def n_def)
    ultimately show ?thesis by (simp add: same_letter_def c)
  next
    case latin
    with eq have "l = char_of (n + 32)" by (auto simp: lower_char_def Let_def n_def)
    with latin have "(of_char l :: nat) = n + 32" by (simp add: of_char_of)
    with latin lower_char_stable assms show ?thesis by fastforce
  next
    case other
    with eq have "l = c" by (auto simp: lower_char_def Let_def n_def)
    then show ?thesis by (simp add: same_letter_def)
  qed
next
  assume "same_letter c l"
  then consider "c = l" | "(c, l) \<in> set (zip ascii_uppercase ascii_lowercase)"
    | "(l, c) \<in> set (zip ascii_uppercase ascii_lowercase)"
    unfolding same_letter_def by blast
  then show "lower_char c = l"
  proof cases
    case 1
    with lower_char_stable assms show ?thesis by blast
  next
    case 2
    with lower_char_capital show ?thesis by fastforce
  next
    case 3
    with lower_char_capital assms show ?thesis by fastforce
  qed
qed

lemma same_letter_lower_char: "same_letter a b \<Longrightarrow> lower_char a = lower_char b"
  using lower_char_capital unfolding same_letter_def by fastforce

lemma same_letters_lower: "list_all2 same_letter s t \<Longrightarrow> lower s = lower t"
  unfolding lower_def by (induction rule: list_all2_induct) (auto dest: same_letter_lower_char)

lemma lower_eq_iff:
  "set n \<subseteq> set (ascii_lowercase @ digits) \<Longrightarrow> lower s = n \<longleftrightarrow> list_all2 same_letter s n"
proof (induction n arbitrary: s)
  case Nil
  then show ?case by (simp add: lower_def)
next
  case (Cons l n)
  show ?case
  proof (cases s)
    case Nil
    then show ?thesis by (simp add: lower_def)
  next
    case (Cons c s')
    from Cons.prems have l: "l \<in> set (ascii_lowercase @ digits)"
      and n: "set n \<subseteq> set (ascii_lowercase @ digits)" by auto
    from Cons.IH [OF n, of s'] lower_char_eq_iff [OF l, of c] Cons show ?thesis
      by (simp add: lower_def)
  qed
qed

lemma codenames_lowercase:
  "\<forall>n \<in> set [''skylake'', ''cascadelake'', ''icelake'', ''milan'',
                  ''graviton2'', ''graviton3'', ''graviton4''].
     set n \<subseteq> set (ascii_lowercase @ digits)"
  by code_simp

lemma lower_latin1:
  "lower [CHR 0xC9, CHR 0xD7, CHR 0xDE, CHR 0xDF] = [CHR 0xE9, CHR 0xD7, CHR 0xFE, CHR 0xDF]"
  by code_simp

text \<open>
  C9. \<^verbatim>\<open>CpuModel.from_codename\<close> is case-insensitive. The result on \<open>s\<close> is the result on
  the lowercase of \<open>s\<close>, and it raises exactly when the lowercase of \<open>s\<close> is not one of
  the seven codenames. Two strings that differ only in the case of letters give the same
  result, and the strings it accepts are exactly the seven codenames in any mixture of
  capitals and small letters: \<^verbatim>\<open>SkyLake\<close>, \<^verbatim>\<open>SKYLAKE\<close> and \<^verbatim>\<open>skylake\<close> all give the same CPU
  model. The message of the exception carries the lowercased string, accented capitals
  included.
\<close>

theorem from_codename_case_insensitive:
  "CpuModel_from_codename s = CpuModel_from_codename (lower s)
   \<and> (isl (CpuModel_from_codename s) \<longleftrightarrow>
        lower s \<notin> set [''skylake'', ''cascadelake'', ''icelake'', ''milan'',
                           ''graviton2'', ''graviton3'', ''graviton4''])
   \<and> (list_all2 same_letter s t \<longrightarrow> CpuModel_from_codename s = CpuModel_from_codename t)
   \<and> (\<not> isl (CpuModel_from_codename s) \<longleftrightarrow>
        (\<exists>n \<in> set [''skylake'', ''cascadelake'', ''icelake'', ''milan'',
                      ''graviton2'', ''graviton3'', ''graviton4'']. list_all2 same_letter s n))
   \<and> CpuModel_from_codename ''SkyLake'' = Inr SKY_LAKE
   \<and> CpuModel_from_codename ''SKYLAKE'' = Inr SKY_LAKE
   \<and> CpuModel_from_codename ''skylake'' = Inr SKY_LAKE
   \<and> CpuModel_from_codename ''sky lake'' = Inl (Exception ''Unknown CPU model: sky lake'')
   \<and> CpuModel_from_codename [CHR 0xC9, CHR 0xD7, CHR 0xDE, CHR 0xDF] =
        Inl (Exception (''Unknown CPU model: '' @ [CHR 0xE9, CHR 0xD7, CHR 0xFE, CHR 0xDF]))"
proof -
  have factor: "CpuModel_from_codename s = CpuModel_from_codename (lower s)" for s
    by (simp add: CpuModel_from_codename_def lower_idem Let_def)
  have raises: "isl (CpuModel_from_codename s) \<longleftrightarrow>
        lower s \<notin> set [''skylake'', ''cascadelake'', ''icelake'', ''milan'',
                           ''graviton2'', ''graviton3'', ''graviton4'']"
    by (simp add: CpuModel_from_codename_def Let_def)
  have same: "CpuModel_from_codename s = CpuModel_from_codename t" if "list_all2 same_letter s t"
    using factor [of s] factor [of t] same_letters_lower [OF that] by simp
  have variants: "(\<exists>n \<in> set [''skylake'', ''cascadelake'', ''icelake'', ''milan'',
                      ''graviton2'', ''graviton3'', ''graviton4'']. list_all2 same_letter s n)
      \<longleftrightarrow> lower s \<in> set [''skylake'', ''cascadelake'', ''icelake'', ''milan'',
                           ''graviton2'', ''graviton3'', ''graviton4'']"
    (is "(\<exists>n \<in> set ?names. _) \<longleftrightarrow> _")
  proof
    assume "\<exists>n \<in> set ?names. list_all2 same_letter s n"
    then obtain n where n: "n \<in> set ?names" "list_all2 same_letter s n" by blast
    from codenames_lowercase n(1) have "set n \<subseteq> set (ascii_lowercase @ digits)" by blast
    from lower_eq_iff [OF this, of s] n(2) have "lower s = n" by simp
    with n(1) show "lower s \<in> set ?names" by simp
  next
    assume l: "lower s \<in> set ?names"
    with codenames_lowercase have "set (lower s) \<subseteq> set (ascii_lowercase @ digits)" by blast
    from lower_eq_iff [OF this, of s] have "list_all2 same_letter s (lower s)" by simp
    with l show "\<exists>n \<in> set ?names. list_all2 same_letter s n" by blast
  qed
  have examples: "CpuModel_from_codename ''SkyLake'' = Inr SKY_LAKE"
    "CpuModel_from_codename ''SKYLAKE'' = Inr SKY_LAKE"
    "CpuModel_from_codename ''skylake'' = Inr SKY_LAKE"
    "CpuModel_from_codename ''sky lake'' = Inl (Exception ''Unknown CPU model: sky lake'')"
    by code_simp+
  have latin: "CpuModel_from_codename [CHR 0xC9, CHR 0xD7, CHR 0xDE, CHR 0xDF] =
        Inl (Exception (''Unknown CPU model: '' @ [CHR 0xE9, CHR 0xD7, CHR 0xFE, CHR 0xDF]))"
    by (simp add: CpuModel_from_codename_def Let_def lower_latin1)
  from raises variants have accepted: "\<not> isl (CpuModel_from_codename s) \<longleftrightarrow>
        (\<exists>n \<in> set ?names. list_all2 same_letter s n)"
    by simp
  from factor [of s] raises same accepted examples latin show ?thesis
    by (intro conjI impI)
qed

theorem from_codename_case_insensitive_witness:
  "list_all2 same_letter ''SKYLAKE'' ''SkyLake''
   \<and> CpuModel_from_codename ''SKYLAKE'' = CpuModel_from_codename ''SkyLake''"
proof -
  have a: "list_all2 same_letter ''SKYLAKE'' ''SkyLake''" by code_simp
  with from_codename_case_insensitive [of "''SKYLAKE''" "''SkyLake''"] show ?thesis
    by blast
qed

text \<open>
  C2, as stated, fails: the display string of a \<open>GuestOs\<close> or \<open>MachineConfig\<close> value is
  not a token \<^verbatim>\<open>from_str\<close> accepts, so parsing it does not give the value back.
\<close>

theorem display_roundtrip_counterexample:
  "GuestOs_from_str (GuestOs_str UBUNTU_18_04) \<noteq> Inr UBUNTU_18_04
   \<and> MachineConfig_from_str (MachineConfig_str VCPU_1_MEM_1G) \<noteq> Inr VCPU_1_MEM_1G
   \<and> MachineConfig_from_str (MachineConfig_str VCPU_2_MEM_1G) \<noteq> Inr VCPU_2_MEM_1G"
  by (simp add: GuestOs_from_str_def MachineConfig_from_str_def)

text \<open>
  C2, amended. Parsing the display string gives the value back for \<open>CpuModel\<close> (through
  \<^verbatim>\<open>from_codename\<close>), \<open>Metric\<close> and \<open>KernelVersion\<close>. For \<open>GuestOs\<close> and
  \<open>MachineConfig\<close> \<^verbatim>\<open>from_str\<close> raises on the display string: the token it accepts is the
  name of the root file system (\<^verbatim>\<open>ubuntu-18.04.ext4\<close>), respectively the display string
  followed by \<^verbatim>\<open>.json\<close>.
\<close>

theorem display_roundtrip:
  "CpuModel_from_codename (CpuModel_str c) = Inr c
   \<and> Metric_from_str (Metric_str m) = Inr m
   \<and> KernelVersion_from_str (KernelVersion_str k) = Inr k
   \<and> GuestOs_from_str (GuestOs_str g) =
        Inl (Exception (''Unknown guest os: '' @ GuestOs_str g))
   \<and> MachineConfig_from_str (MachineConfig_str mc) =
        Inl (Exception (''Unknown machine configuration: '' @ MachineConfig_str mc))
   \<and> GuestOs_from_str ''ubuntu-18.04.ext4'' = Inr g
   \<and> MachineConfig_from_str (MachineConfig_str mc @ ''.json'') = Inr mc"
proof -
  have c: "CpuModel_from_codename (CpuModel_str c) = Inr c"
    by (cases c) (simp_all add: CpuModel_from_codename_def lower_display_names)
  have m: "Metric_from_str (Metric_str m) = Inr m"
    by (cases m) (simp_all add: Metric_from_str_def)
  have k: "KernelVersion_from_str (KernelVersion_str k) = Inr k"
    by (cases k) (simp_all add: KernelVersion_from_str_def)
  have g: "GuestOs_from_str (GuestOs_str g) =
        Inl (Exception (''Unknown guest os: '' @ GuestOs_str g))"
    "GuestOs_from_str ''ubuntu-18.04.ext4'' = Inr g"
    by (cases g; simp add: GuestOs_from_str_def)+
  have mc: "MachineConfig_from_str (MachineConfig_str mc) =
        Inl (Exception (''Unknown machine configuration: '' @ MachineConfig_str mc))"
     "MachineConfig_from_str (MachineConfig_str mc @ ''.json'') = Inr mc"
    by (cases mc; simp add: MachineConfig_from_str_def)+
  from c m k g mc show ?thesis by simp
qed

text \<open>
  C5. A token with no canonical value makes the parser raise; no parser returns a default
  value. The five string parsers raise \<^verbatim>\<open>Exception\<close> with the token in the message
  (\<^verbatim>\<open>from_codename\<close> with the lowercased token), and \<^verbatim>\<open>CpuModel.from_str\<close> raises
  \<^verbatim>\<open>KeyError\<close> on a pair of instance type and CPU description outside its table. The
  token lists are exact: each parser raises on no other token.
\<close>

theorem unknown_token_raises:
  "(lower name \<notin> set [''skylake'', ''cascadelake'', ''icelake'', ''milan'',
                          ''graviton2'', ''graviton3'', ''graviton4'']
      \<longrightarrow> CpuModel_from_codename name = Inl (Exception (''Unknown CPU model: '' @ lower name)))
   \<and> ((instance_type, model_str) \<notin> set (map fst MODELCODE)
      \<longrightarrow> CpuModel_from_str instance_type model_str = Inl KeyError)
   \<and> (os \<noteq> ''ubuntu-18.04.ext4''
      \<longrightarrow> GuestOs_from_str os = Inl (Exception (''Unknown guest os: '' @ os)))
   \<and> (config \<notin> set [''1vcpu_1024mb.json'', ''2vcpu_1024mb.json'']
      \<longrightarrow> MachineConfig_from_str config =
            Inl (Exception (''Unknown machine configuration: '' @ config)))
   \<and> (metric \<notin> set [''cpu_utilization_vcpus_total'', ''cpu_utilization_vmm'', ''throughput'']
      \<longrightarrow> Metric_from_str metric = Inl (Exception (''Unknown metric '' @ metric)))
   \<and> (kern \<notin> set [''5.10'', ''vmlinux-5.10.bin'', ''4.14'', ''vmlinux-4.14.bin'']
      \<longrightarrow> KernelVersion_from_str kern =
            Inl (Exception (''Unknown kernel version: '' @ kern)))
   \<and> (isl (CpuModel_from_codename name) \<longleftrightarrow>
        lower name \<notin> set [''skylake'', ''cascadelake'', ''icelake'', ''milan'',
                            ''graviton2'', ''graviton3'', ''graviton4''])
   \<and> (isl (CpuModel_from_str instance_type model_str) \<longleftrightarrow>
        (instance_type, model_str) \<notin> set (map fst MODELCODE))
   \<and> (isl (GuestOs_from_str os) \<longleftrightarrow> os \<noteq> ''ubuntu-18.04.ext4'')
   \<and> (isl (MachineConfig_from_str config) \<longleftrightarrow>
        config \<notin> set [''1vcpu_1024mb.json'', ''2vcpu_1024mb.json''])
   \<and> (isl (Metric_from_str metric) \<longleftrightarrow>
        metric \<notin> set [''cpu_utilization_vcpus_total'', ''cpu_utilization_vmm'', ''throughput''])
   \<and> (isl (KernelVersion_from_str kern) \<longleftrightarrow>
        kern \<notin> set [''5.10'', ''vmlinux-5.10.bin'', ''4.14'', ''vmlinux-4.14.bin''])"
proof -
  have "map_of MODELCODE (instance_type, model_str) = None
      \<longleftrightarrow> (instance_type, model_str) \<notin> set (map fst MODELCODE)"
    by (simp add: map_of_eq_None_iff)
  then have cpu: "isl (CpuModel_from_str instance_type model_str) \<longleftrightarrow>
        (instance_type, model_str) \<notin> set (map fst MODELCODE)"
     "(instance_type, model_str) \<notin> set (map fst MODELCODE)
      \<longrightarrow> CpuModel_from_str instance_type model_str = Inl KeyError"
    by (auto simp: CpuModel_from_str_def split: option.splits)
  have rest: "(lower name \<notin> set [''skylake'', ''cascadelake'', ''icelake'', ''milan'',
                          ''graviton2'', ''graviton3'', ''graviton4'']
      \<longrightarrow> CpuModel_from_codename name = Inl (Exception (''Unknown CPU model: '' @ lower name)))"
    "(os \<noteq> ''ubuntu-18.04.ext4''
      \<longrightarrow> GuestOs_from_str os = Inl (Exception (''Unknown guest os: '' @ os)))"
    "(config \<notin> set [''1vcpu_1024mb.json'', ''2vcpu_1024mb.json'']
      \<longrightarrow> MachineConfig_from_str config =
            Inl (Exception (''Unknown machine configuration: '' @ config)))"
    "(metric \<notin> set [''cpu_utilization_vcpus_total'', ''cpu_utilization_vmm'', ''throughput'']
      \<longrightarrow> Metric_from_str metric = Inl (Exception (''Unknown metric '' @ metric)))"
    "(kern \<notin> set [''5.10'', ''vmlinux-5.10.bin'', ''4.14'', ''vmlinux-4.14.bin'']
      \<longrightarrow> KernelVersion_from_str kern =
            Inl (Exception (''Unknown kernel version: '' @ kern)))"
    "(isl (CpuModel_from_codename name) \<longleftrightarrow>
        lower name \<notin> set [''skylake'', ''cascadelake'', ''icelake'', ''milan'',
                            ''graviton2'', ''graviton3'', ''graviton4''])"
    "(isl (GuestOs_from_str os) \<longleftrightarrow> os \<noteq> ''ubuntu-18.04.ext4'')"
    "(isl (MachineConfig_from_str config) \<longleftrightarrow>
        config \<notin> set [''1vcpu_1024mb.json'', ''2vcpu_1024mb.json''])"
    "(isl (Metric_from_str metric) \<longleftrightarrow>
        metric \<notin> set [''cpu_utilization_vcpus_total'', ''cpu_utilization_vmm'', ''throughput''])"
    "(isl (KernelVersion_from_str kern) \<longleftrightarrow>
        kern \<notin> set [''5.10'', ''vmlinux-5.10.bin'', ''4.14'', ''vmlinux-4.14.bin''])"
    by (simp_all add: CpuModel_from_codename_def GuestOs_from_str_def
      Let_def MachineConfig_from_str_def Metric_from_str_def KernelVersion_from_str_def)
  from cpu rest show ?thesis by (intro conjI)
qed

theorem unknown_token_raises_witness:
  "CpuModel_from_codename ''Haswell'' = Inl (Exception ''Unknown CPU model: haswell'')
   \<and> CpuModel_from_str ''m5d.metal'' ''ARM_NEOVERSE_V1'' = Inl KeyError
   \<and> GuestOs_from_str ''Ubuntu 18.04'' = Inl (Exception ''Unknown guest os: Ubuntu 18.04'')
   \<and> MachineConfig_from_str ''4vcpu_1024mb.json'' =
        Inl (Exception ''Unknown machine configuration: 4vcpu_1024mb.json'')
   \<and> Metric_from_str ''latency'' = Inl (Exception ''Unknown metric latency'')
   \<and> KernelVersion_from_str ''6.1'' = Inl (Exception ''Unknown kernel version: 6.1'')"
proof -
  have l: "lower ''Haswell'' = ''haswell''" by code_simp
  have m: "(''m5d.metal'', ''ARM_NEOVERSE_V1'') \<notin> set (map fst MODELCODE)"
    by (simp add: MODELCODE_def)
  show ?thesis
    using unknown_token_raises [of "''Haswell''" "''m5d.metal''" "''ARM_NEOVERSE_V1''"
        "''Ubuntu 18.04''" "''4vcpu_1024mb.json''" "''latency''" "''6.1''"] m
    by (simp add: l)
qed

section \<open>Properties of the loader's constructor\<close>

lemma map_of_Some_keys: "map_of d k = Some v \<Longrightarrow> k \<in> fst ` set d"
  by (drule map_of_SomeD) force

lemma map_of_None_keys: "k \<notin> set (map fst d) \<Longrightarrow> map_of d k = None"
  by (simp add: map_of_eq_None_iff)

text \<open>
  C4. A document without the top-level key \<^verbatim>\<open>hosts\<close> makes the constructor raise
  \<^verbatim>\<open>Exception("Malformed baseline file")\<close>. With the key, and \<^verbatim>\<open>instances\<close> under it, the
  constructor returns a loader whose metadata is exactly the top-level entries other
  than \<^verbatim>\<open>hosts\<close> and whose baseline data is \<^verbatim>\<open>hosts.instances\<close>; and every loader the
  constructor returns is of that form.
\<close>

theorem init_hosts:
  "(''hosts'' \<notin> set (map fst d) \<longrightarrow>
      (BaselineParser_init (JObj d) hk gv :: error + 'c BaselineParser) =
        Inl (Exception ''Malformed baseline file''))
   \<and> (map_of d ''hosts'' = Some (JObj h) \<and> map_of h ''instances'' = Some b \<longrightarrow>
      (BaselineParser_init (JObj d) hk gv :: error + 'c BaselineParser) =
        Inr \<lparr>meta = filter (\<lambda>(x, v). x \<noteq> ''hosts'') d, baselines = b, instances = [],
             host_kernel = hk, git_version = gv\<rparr>)
   \<and> (BaselineParser_init raw hk gv = Inr (p :: 'c BaselineParser) \<longrightarrow>
      (\<exists>d' hosts. raw = JObj d' \<and> meta p = filter (\<lambda>(x, v). x \<noteq> ''hosts'') d'
         \<and> getitem raw ''hosts'' = Inr hosts
         \<and> getitem hosts ''instances'' = Inr (baselines p)))"
proof -
  have 1: "''hosts'' \<notin> set (map fst d) \<Longrightarrow>
      (BaselineParser_init (JObj d) hk gv :: error + 'c BaselineParser) =
        Inl (Exception ''Malformed baseline file'')"
    by (simp add: BaselineParser_init_def)
  have 2: "(BaselineParser_init (JObj d) hk gv :: error + 'c BaselineParser) =
        Inr \<lparr>meta = filter (\<lambda>(x, v). x \<noteq> ''hosts'') d, baselines = b, instances = [],
             host_kernel = hk, git_version = gv\<rparr>"
    if "map_of d ''hosts'' = Some (JObj h)" "map_of h ''instances'' = Some b"
  proof -
    from that(1) have "''hosts'' \<in> fst ` set d"
      by (rule map_of_Some_keys)
    with that show ?thesis
      by (simp add: BaselineParser_init_def)
  qed
  have 3: "\<exists>d' hosts. raw = JObj d' \<and> meta p = filter (\<lambda>(x, v). x \<noteq> ''hosts'') d'
         \<and> getitem raw ''hosts'' = Inr hosts
         \<and> getitem hosts ''instances'' = Inr (baselines p)"
    if "BaselineParser_init raw hk gv = Inr p"
    using that
    by (cases raw) (auto simp: BaselineParser_init_def Let_def split: if_splits sum.splits)
  from 1 2 3 show ?thesis by blast
qed

theorem init_hosts_witness:
  "(BaselineParser_init (JObj [(''version'', JStr ''1'')]) KERNEL_5_10 ''main''
        :: error + unit BaselineParser) = Inl (Exception ''Malformed baseline file'')
   \<and> (BaselineParser_init
        (JObj [(''version'', JStr ''1''), (''hosts'', JObj [(''instances'', JObj [])])])
        KERNEL_5_10 ''main'' :: error + unit BaselineParser) =
        Inr \<lparr>meta = [(''version'', JStr ''1'')], baselines = JObj [], instances = [],
             host_kernel = KERNEL_5_10, git_version = ''main''\<rparr>
   \<and> (\<exists>d' hosts.
        JObj [(''version'', JStr ''1''), (''hosts'', JObj [(''instances'', JObj [])])] = JObj d'
        \<and> [(''version'', JStr ''1'')] = filter (\<lambda>(x, v). x \<noteq> ''hosts'') d'
        \<and> getitem (JObj [(''version'', JStr ''1''), (''hosts'', JObj [(''instances'', JObj [])])])
             ''hosts'' = Inr hosts
        \<and> getitem hosts ''instances'' = Inr (JObj []))"
proof -
  have a: "''hosts'' \<notin> set (map fst [(''version'', JStr ''1'')])" by simp
  have b: "map_of [(''version'', JStr ''1''), (''hosts'', JObj [(''instances'', JObj [])])]
             ''hosts'' = Some (JObj [(''instances'', JObj [])])
           \<and> map_of [(''instances'', JObj [])] ''instances'' = Some (JObj [])" by simp
  from a have 1: "(BaselineParser_init (JObj [(''version'', JStr ''1'')]) KERNEL_5_10 ''main''
        :: error + unit BaselineParser) = Inl (Exception ''Malformed baseline file'')"
    using init_hosts [where ?'c = unit and d = "[(''version'', JStr ''1'')]"
        and hk = KERNEL_5_10 and gv = "''main''"]
    by blast
  from b have 2: "(BaselineParser_init
        (JObj [(''version'', JStr ''1''), (''hosts'', JObj [(''instances'', JObj [])])])
        KERNEL_5_10 ''main'' :: error + unit BaselineParser) =
        Inr \<lparr>meta = [(''version'', JStr ''1'')], baselines = JObj [], instances = [],
             host_kernel = KERNEL_5_10, git_version = ''main''\<rparr>"
    using init_hosts [where ?'c = unit
        and d = "[(''version'', JStr ''1''), (''hosts'', JObj [(''instances'', JObj [])])]"
        and h = "[(''instances'', JObj [])]" and b = "JObj []" and hk = KERNEL_5_10
        and gv = "''main''"]
    by simp
  from 2 have 3: "\<exists>d' hosts.
        JObj [(''version'', JStr ''1''), (''hosts'', JObj [(''instances'', JObj [])])] = JObj d'
        \<and> [(''version'', JStr ''1'')] = filter (\<lambda>(x, v). x \<noteq> ''hosts'') d'
        \<and> getitem (JObj [(''version'', JStr ''1''), (''hosts'', JObj [(''instances'', JObj [])])])
             ''hosts'' = Inr hosts
        \<and> getitem hosts ''instances'' = Inr (JObj [])"
    using init_hosts [where ?'c = unit
        and raw = "JObj [(''version'', JStr ''1''), (''hosts'', JObj [(''instances'', JObj [])])]"
        and p = "\<lparr>meta = [(''version'', JStr ''1'')], baselines = JObj [], instances = [],
             host_kernel = KERNEL_5_10, git_version = ''main''\<rparr>"
        and hk = KERNEL_5_10 and gv = "''main''"]
    by simp
  from 1 2 3 show ?thesis by (intro conjI)
qed

text \<open>
  C10. The key \<^verbatim>\<open>hosts\<close> is not enough: when the \<^verbatim>\<open>hosts\<close> object has no key
  \<^verbatim>\<open>instances\<close> the constructor raises \<^verbatim>\<open>KeyError\<close> (and \<^verbatim>\<open>TypeError\<close> when \<^verbatim>\<open>hosts\<close> is
  not an object), which is not the malformed-file exception; no loader is returned.
\<close>

theorem init_hosts_without_instances:
  "(map_of d ''hosts'' = Some (JObj h) \<and> ''instances'' \<notin> set (map fst h) \<longrightarrow>
      (BaselineParser_init (JObj d) hk gv :: error + 'c BaselineParser) = Inl KeyError)
   \<and> (map_of d ''hosts'' = Some v \<and> (\<forall>h. v \<noteq> JObj h) \<longrightarrow>
      (BaselineParser_init (JObj d) hk gv :: error + 'c BaselineParser) = Inl TypeError)
   \<and> KeyError \<noteq> Exception ''Malformed baseline file''"
proof -
  have k: "''hosts'' \<in> fst ` set d" if "map_of d ''hosts'' = Some v" for v
    using that by (rule map_of_Some_keys)
  have 1: "(BaselineParser_init (JObj d) hk gv :: error + 'c BaselineParser) = Inl KeyError"
    if "map_of d ''hosts'' = Some (JObj h)" "''instances'' \<notin> set (map fst h)"
    using that k [OF that(1)] map_of_None_keys [OF that(2)]
    by (simp add: BaselineParser_init_def)
  have 2: "(BaselineParser_init (JObj d) hk gv :: error + 'c BaselineParser) = Inl TypeError"
    if "map_of d ''hosts'' = Some v" "\<forall>h. v \<noteq> JObj h"
    using that k [OF that(1)]
    by (cases v) (simp_all add: BaselineParser_init_def)
  from 1 2 show ?thesis by blast
qed

theorem init_hosts_without_instances_witness:
  "(BaselineParser_init (JObj [(''hosts'', JObj [(''owner'', JStr ''perf'')])])
        KERNEL_5_10 ''main'' :: error + unit BaselineParser) = Inl KeyError
   \<and> (BaselineParser_init (JObj [(''hosts'', JArr [])])
        KERNEL_5_10 ''main'' :: error + unit BaselineParser) = Inl TypeError"
proof -
  have a: "map_of [(''hosts'', JObj [(''owner'', JStr ''perf'')])] ''hosts''
             = Some (JObj [(''owner'', JStr ''perf'')])
           \<and> ''instances'' \<notin> set (map fst [(''owner'', JStr ''perf'')])" by simp
  have b: "map_of [(''hosts'', JArr [])] ''hosts'' = Some (JArr []) \<and> (\<forall>h. JArr [] \<noteq> JObj h)"
    by simp
  from a b show ?thesis
    using init_hosts_without_instances [where ?'c = unit
        and d = "[(''hosts'', JObj [(''owner'', JStr ''perf'')])]"
        and h = "[(''owner'', JStr ''perf'')]" and hk = KERNEL_5_10 and gv = "''main''"]
      init_hosts_without_instances [where ?'c = unit
        and d = "[(''hosts'', JArr [])]" and v = "JArr []" and hk = KERNEL_5_10
        and gv = "''main''"]
    by simp
qed

section \<open>Properties of \<^verbatim>\<open>_parse_data\<close>\<close>

subsection \<open>Loops\<close>

lemma for_each_append:
  "for_each body (xs @ ys) s =
     (case for_each body xs s of Inl e \<Rightarrow> Inl e | Inr s' \<Rightarrow> for_each body ys s')"
  by (induction xs arbitrary: s) (auto split: sum.splits)

lemma for_each_Inr_step:
  "for_each body xs s = Inr t \<Longrightarrow> x \<in> set xs \<Longrightarrow> \<exists>s' s''. body x s' = Inr s''"
proof (induction xs arbitrary: s)
  case Nil
  then show ?case by simp
next
  case (Cons y ys)
  then show ?case
    by (cases "body y s") auto
qed

lemma for_each_Inl_step:
  "for_each body xs s = Inl e \<Longrightarrow> \<exists>x \<in> set xs. \<exists>s'. body x s' = Inl e"
proof (induction xs arbitrary: s)
  case Nil
  then show ?case by simp
next
  case (Cons y ys)
  then show ?case
    by (cases "body y s") auto
qed

lemma for_each_total:
  "(\<And>x s. x \<in> set xs \<Longrightarrow> \<not> isl (body x s)) \<Longrightarrow> \<not> isl (for_each body xs s)"
proof (induction xs arbitrary: s)
  case Nil
  then show ?case by simp
next
  case (Cons y ys)
  from Cons.prems [of y s] obtain s' where "body y s = Inr s'"
    by (cases "body y s") auto
  with Cons show ?case by simp
qed

lemma for_each_invariant:
  assumes "for_each body xs s = Inr t" and "I s"
    and "\<And>x s s'. x \<in> set xs \<Longrightarrow> I s \<Longrightarrow> body x s = Inr s' \<Longrightarrow> I s'"
  shows "I t"
  using assms
proof (induction xs arbitrary: s)
  case Nil
  then show ?case by simp
next
  case (Cons y ys)
  from Cons.prems(1) obtain s' where s': "body y s = Inr s'" "for_each body ys s' = Inr t"
    by (cases "body y s") auto
  have "I s'" using Cons.prems(3) [of y s s'] Cons.prems(2) s'(1) by simp
  show ?case
  proof (rule Cons.IH [OF s'(2) \<open>I s'\<close>])
    fix x r r'
    assume "x \<in> set ys" "I r" "body x r = Inr r'"
    then show "I r'" using Cons.prems(3) [of x r r'] by simp
  qed
qed

subsection \<open>A tree is returned only when every leaf has one statistic kind\<close>

lemma parse_config_Inr:
  "parse_config f c acc = Inr t \<Longrightarrow> length (snd c) = 1"
  by (auto simp: parse_config_def split: list.splits sum.splits prod.splits)

lemma parse_userspace_Inr:
  assumes "parse_userspace f u acc = Inr t" "l \<in> set (userspace_leaves u)"
  shows "length l = 1"
proof -
  from assms(2) obtain c where c: "c \<in> set (snd u)" "l = snd c"
    by (auto simp: userspace_leaves_def)
  from assms(1) obtain mc where "for_each (parse_config f) (snd u) [] = Inr mc"
    by (auto simp: parse_userspace_def split: sum.splits)
  from for_each_Inr_step [OF this c(1)] c(2) show ?thesis
    by (auto dest: parse_config_Inr)
qed

lemma parse_guest_kernel_Inr:
  assumes "parse_guest_kernel f k acc = Inr t" "l \<in> set (guest_kernel_leaves k)"
  shows "length l = 1"
proof -
  from assms(2) obtain u where u: "u \<in> set (snd k)" "l \<in> set (userspace_leaves u)"
    by (auto simp: guest_kernel_leaves_def)
  from assms(1) obtain os where "for_each (parse_userspace f) (snd k) [] = Inr os"
    by (auto simp: parse_guest_kernel_def split: sum.splits)
  from for_each_Inr_step [OF this u(1)] u(2) show ?thesis
    by (auto dest: parse_userspace_Inr)
qed

lemma parse_metric_Inr:
  assumes "parse_metric f m acc = Inr t" "l \<in> set (metric_leaves m)"
  shows "length l = 1"
proof -
  from assms(2) obtain k where k: "k \<in> set (snd m)" "l \<in> set (guest_kernel_leaves k)"
    by (auto simp: metric_leaves_def)
  from assms(1) obtain ks where "for_each (parse_guest_kernel f) (snd m) [] = Inr ks"
    by (auto simp: parse_metric_def split: sum.splits)
  from for_each_Inr_step [OF this k(1)] k(2) show ?thesis
    by (auto dest: parse_guest_kernel_Inr)
qed

lemma parse_cpu_Inr:
  assumes "parse_cpu f it cpu acc = Inr t" "l \<in> set (cpu_leaves cpu)"
  shows "length l = 1"
proof -
  from assms(2) obtain m where m: "m \<in> set (cpu_baselines cpu)" "l \<in> set (metric_leaves m)"
    by (auto simp: cpu_leaves_def)
  from assms(1) obtain ms where "for_each (parse_metric f) (cpu_baselines cpu) [] = Inr ms"
    by (auto simp: parse_cpu_def split: sum.splits)
  from for_each_Inr_step [OF this m(1)] m(2) show ?thesis
    by (auto dest: parse_metric_Inr)
qed

lemma config_leaves_iff:
  "l \<in> set (config_leaves b) \<longleftrightarrow>
     (\<exists>inst \<in> set b. \<exists>cpu \<in> set (snd inst). l \<in> set (cpu_leaves cpu))"
  by (simp only: config_leaves_def set_concat set_map image_image UN_iff)

lemma parse_data_Inr_leaves:
  assumes "parse_data f b = Inr t" "l \<in> set (config_leaves b)"
  shows "length l = 1"
proof -
  from assms(2) obtain inst cpu where
    mem: "inst \<in> set b" "cpu \<in> set (snd inst)" "l \<in> set (cpu_leaves cpu)"
    unfolding config_leaves_iff by blast
  from assms(1) have "for_each (parse_instance f) b [] = Inr t"
    by (simp add: parse_data_def)
  from for_each_Inr_step [OF this mem(1)] obtain s s' where
    "for_each (parse_cpu f (fst inst)) (snd inst) s = Inr s'"
    by (auto simp: parse_instance_def)
  from for_each_Inr_step [OF this mem(2)] obtain r r' where
    "parse_cpu f (fst inst) cpu r = Inr r'" by blast
  from parse_cpu_Inr [OF this mem(3)] show ?thesis .
qed

subsection \<open>The assertion fails only at a leaf without exactly one statistic kind\<close>

lemma from_str_not_assertion:
  "MachineConfig_from_str s \<noteq> Inl AssertionError"
  "GuestOs_from_str s \<noteq> Inl AssertionError"
  "KernelVersion_from_str s \<noteq> Inl AssertionError"
  "Metric_from_str s \<noteq> Inl AssertionError"
  "CpuModel_from_str it s \<noteq> Inl AssertionError"
  by (simp_all add: MachineConfig_from_str_def GuestOs_from_str_def KernelVersion_from_str_def
      Metric_from_str_def CpuModel_from_str_def split: option.splits)

lemma parse_config_assertion:
  assumes "\<forall>d. f d \<noteq> Inl AssertionError" "parse_config f c acc = Inl AssertionError"
  shows "length (snd c) \<noteq> 1"
proof
  assume "length (snd c) = 1"
  then obtain k d where "snd c = [(k, d)]"
    by (cases "snd c") (auto simp: length_Suc_conv)
  with assms from_str_not_assertion(1) [of "fst c"] show False
    by (auto simp: parse_config_def split: sum.splits)
qed

lemma parse_userspace_assertion:
  assumes "\<forall>d. f d \<noteq> Inl AssertionError" "parse_userspace f u acc = Inl AssertionError"
  shows "\<exists>l \<in> set (userspace_leaves u). length l \<noteq> 1"
proof -
  from assms(2) from_str_not_assertion(2) [of "fst u"]
  have "for_each (parse_config f) (snd u) [] = Inl AssertionError"
    by (auto simp: parse_userspace_def split: sum.splits)
  from for_each_Inl_step [OF this] obtain c s where
    c: "c \<in> set (snd u)" "parse_config f c s = Inl AssertionError" by blast
  from parse_config_assertion [OF assms(1) c(2)] c(1) show ?thesis
    unfolding userspace_leaves_def by (intro bexI [of _ "snd c"]) simp_all
qed

lemma parse_guest_kernel_assertion:
  assumes "\<forall>d. f d \<noteq> Inl AssertionError" "parse_guest_kernel f k acc = Inl AssertionError"
  shows "\<exists>l \<in> set (guest_kernel_leaves k). length l \<noteq> 1"
proof -
  from assms(2) from_str_not_assertion(3) [of "fst k"]
  have "for_each (parse_userspace f) (snd k) [] = Inl AssertionError"
    by (auto simp: parse_guest_kernel_def split: sum.splits)
  from for_each_Inl_step [OF this] obtain u s where
    u: "u \<in> set (snd k)" "parse_userspace f u s = Inl AssertionError" by blast
  from parse_userspace_assertion [OF assms(1) u(2)] obtain l where
    "l \<in> set (userspace_leaves u)" "length l \<noteq> 1" by blast
  with u(1) show ?thesis
    unfolding guest_kernel_leaves_def by (intro bexI [of _ l]) auto
qed

lemma parse_metric_assertion:
  assumes "\<forall>d. f d \<noteq> Inl AssertionError" "parse_metric f m acc = Inl AssertionError"
  shows "\<exists>l \<in> set (metric_leaves m). length l \<noteq> 1"
proof -
  from assms(2) from_str_not_assertion(4) [of "fst m"]
  have "for_each (parse_guest_kernel f) (snd m) [] = Inl AssertionError"
    by (auto simp: parse_metric_def split: sum.splits)
  from for_each_Inl_step [OF this] obtain k s where
    k: "k \<in> set (snd m)" "parse_guest_kernel f k s = Inl AssertionError" by blast
  from parse_guest_kernel_assertion [OF assms(1) k(2)] obtain l where
    "l \<in> set (guest_kernel_leaves k)" "length l \<noteq> 1" by blast
  with k(1) show ?thesis
    unfolding metric_leaves_def by (intro bexI [of _ l]) auto
qed

lemma parse_cpu_assertion:
  assumes "\<forall>d. f d \<noteq> Inl AssertionError" "parse_cpu f it cpu acc = Inl AssertionError"
  shows "\<exists>l \<in> set (cpu_leaves cpu). length l \<noteq> 1"
proof -
  from assms(2) from_str_not_assertion(5) [of it "cpu_model cpu"]
  have "for_each (parse_metric f) (cpu_baselines cpu) [] = Inl AssertionError"
    by (auto simp: parse_cpu_def split: sum.splits)
  from for_each_Inl_step [OF this] obtain m s where
    m: "m \<in> set (cpu_baselines cpu)" "parse_metric f m s = Inl AssertionError" by blast
  from parse_metric_assertion [OF assms(1) m(2)] obtain l where
    "l \<in> set (metric_leaves m)" "length l \<noteq> 1" by blast
  with m(1) show ?thesis
    unfolding cpu_leaves_def by (intro bexI [of _ l]) auto
qed

lemma parse_data_assertion:
  assumes "\<forall>d. f d \<noteq> Inl AssertionError" "parse_data f b = Inl AssertionError"
  shows "\<exists>l \<in> set (config_leaves b). length l \<noteq> 1"
proof -
  from assms(2) have "for_each (parse_instance f) b [] = Inl AssertionError"
    by (simp add: parse_data_def)
  from for_each_Inl_step [OF this] obtain inst s where inst: "inst \<in> set b"
    "for_each (parse_cpu f (fst inst)) (snd inst) s = Inl AssertionError"
    by (auto simp: parse_instance_def)
  from for_each_Inl_step [OF inst(2)] obtain cpu r where cpu: "cpu \<in> set (snd inst)"
    "parse_cpu f (fst inst) cpu r = Inl AssertionError" by blast
  from parse_cpu_assertion [OF assms(1) cpu(2)] obtain l where
    l: "l \<in> set (cpu_leaves cpu)" "length l \<noteq> 1" by blast
  from l(1) inst(1) cpu(1) have "l \<in> set (config_leaves b)"
    unfolding config_leaves_iff by (intro bexI [of _ inst] bexI [of _ cpu])
  with l(2) show ?thesis by (rule_tac bexI)
qed

subsection \<open>With known tokens and a total extraction function\<close>

lemma parse_config_known_error:
  assumes "config_known c" "\<forall>d. \<not> isl (f d)" "parse_config f c acc = Inl e"
  shows "e = AssertionError"
proof (cases "snd c")
  case Nil
  with assms(3) show ?thesis by (simp add: parse_config_def)
next
  case (Cons x xs)
  obtain k d where x: "x = (k, d)" by (cases x)
  obtain mc where mc: "MachineConfig_from_str (fst c) = Inr mc"
    using assms(1) by (cases "MachineConfig_from_str (fst c)") (auto simp: config_known_def)
  obtain r where r: "f d = Inr r"
    using assms(2) by (cases "f d") (auto dest: spec [of _ d])
  from assms(3) Cons x mc r show ?thesis
    by (cases xs) (simp_all add: parse_config_def)
qed

lemma parse_config_known_total:
  assumes "config_known c" "\<forall>d. \<not> isl (f d)" "length (snd c) = 1"
  shows "\<not> isl (parse_config f c acc)"
proof -
  from assms(3) obtain k d where kd: "snd c = [(k, d)]"
    by (cases "snd c") (auto simp: length_Suc_conv)
  obtain mc where mc: "MachineConfig_from_str (fst c) = Inr mc"
    using assms(1) by (cases "MachineConfig_from_str (fst c)") (auto simp: config_known_def)
  obtain r where r: "f d = Inr r"
    using assms(2) by (cases "f d") (auto dest: spec [of _ d])
  from kd mc r show ?thesis by (simp add: parse_config_def)
qed

lemma parse_userspace_known_error:
  assumes "userspace_known u" "\<forall>d. \<not> isl (f d)" "parse_userspace f u acc = Inl e"
  shows "e = AssertionError"
proof (cases "for_each (parse_config f) (snd u) []")
  case (Inl e')
  from for_each_Inl_step [OF this] obtain c s where
    c: "c \<in> set (snd u)" "parse_config f c s = Inl e'" by blast
  from assms(1) c(1) have "config_known c" by (simp add: userspace_known_def)
  from parse_config_known_error [OF this assms(2) c(2)] Inl assms(3) show ?thesis
    by (simp add: parse_userspace_def)
next
  case (Inr mc)
  with assms(1,3) show ?thesis
    by (cases "GuestOs_from_str (fst u)") (simp_all add: parse_userspace_def userspace_known_def)
qed

lemma parse_userspace_known_total:
  assumes "userspace_known u" "\<forall>d. \<not> isl (f d)" "\<forall>l \<in> set (userspace_leaves u). length l = 1"
  shows "\<not> isl (parse_userspace f u acc)"
proof -
  have "\<not> isl (for_each (parse_config f) (snd u) [])"
  proof (rule for_each_total)
    fix c s assume c: "c \<in> set (snd u)"
    with assms(1) have known: "config_known c" by (simp add: userspace_known_def)
    from c assms(3) have single: "length (snd c) = 1" by (simp add: userspace_leaves_def)
    from known assms(2) single show "\<not> isl (parse_config f c s)"
      by (rule parse_config_known_total)
  qed
  then obtain mc where "for_each (parse_config f) (snd u) [] = Inr mc"
    by (cases "for_each (parse_config f) (snd u) []") auto
  with assms(1) show ?thesis
    by (cases "GuestOs_from_str (fst u)") (simp_all add: parse_userspace_def userspace_known_def)
qed

lemma parse_guest_kernel_known_error:
  assumes "guest_kernel_known k" "\<forall>d. \<not> isl (f d)" "parse_guest_kernel f k acc = Inl e"
  shows "e = AssertionError"
proof (cases "for_each (parse_userspace f) (snd k) []")
  case (Inl e')
  from for_each_Inl_step [OF this] obtain u s where
    u: "u \<in> set (snd k)" "parse_userspace f u s = Inl e'" by blast
  from assms(1) u(1) have "userspace_known u" by (simp add: guest_kernel_known_def)
  from parse_userspace_known_error [OF this assms(2) u(2)] Inl assms(3) show ?thesis
    by (simp add: parse_guest_kernel_def)
next
  case (Inr os)
  with assms(1,3) show ?thesis
    by (cases "KernelVersion_from_str (fst k)")
      (simp_all add: parse_guest_kernel_def guest_kernel_known_def)
qed

lemma parse_guest_kernel_known_total:
  assumes "guest_kernel_known k" "\<forall>d. \<not> isl (f d)"
    "\<forall>l \<in> set (guest_kernel_leaves k). length l = 1"
  shows "\<not> isl (parse_guest_kernel f k acc)"
proof -
  have "\<not> isl (for_each (parse_userspace f) (snd k) [])"
  proof (rule for_each_total)
    fix u s assume u: "u \<in> set (snd k)"
    with assms(1) have known: "userspace_known u" by (simp add: guest_kernel_known_def)
    from u assms(3) have single: "\<forall>l \<in> set (userspace_leaves u). length l = 1"
      by (simp add: guest_kernel_leaves_def)
    from known assms(2) single show "\<not> isl (parse_userspace f u s)"
      by (rule parse_userspace_known_total)
  qed
  then obtain os where "for_each (parse_userspace f) (snd k) [] = Inr os"
    by (cases "for_each (parse_userspace f) (snd k) []") auto
  with assms(1) show ?thesis
    by (cases "KernelVersion_from_str (fst k)")
      (simp_all add: parse_guest_kernel_def guest_kernel_known_def)
qed

lemma parse_metric_known_error:
  assumes "metric_known m" "\<forall>d. \<not> isl (f d)" "parse_metric f m acc = Inl e"
  shows "e = AssertionError"
proof (cases "for_each (parse_guest_kernel f) (snd m) []")
  case (Inl e')
  from for_each_Inl_step [OF this] obtain k s where
    k: "k \<in> set (snd m)" "parse_guest_kernel f k s = Inl e'" by blast
  from assms(1) k(1) have "guest_kernel_known k" by (simp add: metric_known_def)
  from parse_guest_kernel_known_error [OF this assms(2) k(2)] Inl assms(3) show ?thesis
    by (simp add: parse_metric_def)
next
  case (Inr ks)
  with assms(1,3) show ?thesis
    by (cases "Metric_from_str (fst m)") (simp_all add: parse_metric_def metric_known_def)
qed

lemma parse_metric_known_total:
  assumes "metric_known m" "\<forall>d. \<not> isl (f d)" "\<forall>l \<in> set (metric_leaves m). length l = 1"
  shows "\<not> isl (parse_metric f m acc)"
proof -
  have "\<not> isl (for_each (parse_guest_kernel f) (snd m) [])"
  proof (rule for_each_total)
    fix k s assume k: "k \<in> set (snd m)"
    with assms(1) have known: "guest_kernel_known k" by (simp add: metric_known_def)
    from k assms(3) have single: "\<forall>l \<in> set (guest_kernel_leaves k). length l = 1"
      by (simp add: metric_leaves_def)
    from known assms(2) single show "\<not> isl (parse_guest_kernel f k s)"
      by (rule parse_guest_kernel_known_total)
  qed
  then obtain ks where "for_each (parse_guest_kernel f) (snd m) [] = Inr ks"
    by (cases "for_each (parse_guest_kernel f) (snd m) []") auto
  with assms(1) show ?thesis
    by (cases "Metric_from_str (fst m)") (simp_all add: parse_metric_def metric_known_def)
qed

lemma parse_cpu_known_error:
  assumes "cpu_known it cpu" "\<forall>d. \<not> isl (f d)" "parse_cpu f it cpu acc = Inl e"
  shows "e = AssertionError"
proof (cases "for_each (parse_metric f) (cpu_baselines cpu) []")
  case (Inl e')
  from for_each_Inl_step [OF this] obtain m s where
    m: "m \<in> set (cpu_baselines cpu)" "parse_metric f m s = Inl e'" by blast
  from assms(1) m(1) have "metric_known m" by (simp add: cpu_known_def)
  from parse_metric_known_error [OF this assms(2) m(2)] Inl assms(3) show ?thesis
    by (simp add: parse_cpu_def)
next
  case (Inr ms)
  with assms(1,3) show ?thesis
    by (cases "CpuModel_from_str it (cpu_model cpu)") (simp_all add: parse_cpu_def cpu_known_def)
qed

lemma parse_cpu_known_total:
  assumes "cpu_known it cpu" "\<forall>d. \<not> isl (f d)" "\<forall>l \<in> set (cpu_leaves cpu). length l = 1"
  shows "\<not> isl (parse_cpu f it cpu acc)"
proof -
  have "\<not> isl (for_each (parse_metric f) (cpu_baselines cpu) [])"
  proof (rule for_each_total)
    fix m s assume m: "m \<in> set (cpu_baselines cpu)"
    with assms(1) have known: "metric_known m" by (simp add: cpu_known_def)
    from m assms(3) have single: "\<forall>l \<in> set (metric_leaves m). length l = 1"
      by (simp add: cpu_leaves_def)
    from known assms(2) single show "\<not> isl (parse_metric f m s)"
      by (rule parse_metric_known_total)
  qed
  then obtain ms where "for_each (parse_metric f) (cpu_baselines cpu) [] = Inr ms"
    by (cases "for_each (parse_metric f) (cpu_baselines cpu) []") auto
  with assms(1) show ?thesis
    by (cases "CpuModel_from_str it (cpu_model cpu)") (simp_all add: parse_cpu_def cpu_known_def)
qed

lemma parse_data_known_error:
  assumes "tokens_known b" "\<forall>d. \<not> isl (f d)" "parse_data f b = Inl e"
  shows "e = AssertionError"
proof -
  from assms(3) have "for_each (parse_instance f) b [] = Inl e"
    by (simp add: parse_data_def)
  from for_each_Inl_step [OF this] obtain inst s where inst: "inst \<in> set b"
    "for_each (parse_cpu f (fst inst)) (snd inst) s = Inl e"
    by (auto simp: parse_instance_def)
  from for_each_Inl_step [OF inst(2)] obtain cpu r where cpu: "cpu \<in> set (snd inst)"
    "parse_cpu f (fst inst) cpu r = Inl e" by blast
  from assms(1) inst(1) cpu(1) have "cpu_known (fst inst) cpu"
    by (simp add: tokens_known_def)
  from parse_cpu_known_error [OF this assms(2) cpu(2)] show ?thesis .
qed

lemma parse_data_known_total:
  assumes "tokens_known b" "\<forall>d. \<not> isl (f d)" "\<forall>l \<in> set (config_leaves b). length l = 1"
  shows "\<not> isl (parse_data f b)"
  unfolding parse_data_def
proof (rule for_each_total)
  fix inst s assume inst: "inst \<in> set b"
  show "\<not> isl (parse_instance f inst s)"
    unfolding parse_instance_def
  proof (rule for_each_total)
    fix cpu r assume cpu: "cpu \<in> set (snd inst)"
    with inst assms(1) have known: "cpu_known (fst inst) cpu" by (simp add: tokens_known_def)
    have single: "\<forall>l \<in> set (cpu_leaves cpu). length l = 1"
    proof
      fix l assume "l \<in> set (cpu_leaves cpu)"
      with inst cpu have "l \<in> set (config_leaves b)"
        unfolding config_leaves_iff by (intro bexI [of _ inst] bexI [of _ cpu])
      with assms(3) show "length l = 1" by simp
    qed
    from known assms(2) single show "\<not> isl (parse_cpu f (fst inst) cpu r)"
      by (rule parse_cpu_known_total)
  qed
qed

subsection \<open>Statistic kinds per leaf\<close>

lemma NetworkTCPThroughput_parser_total: "\<forall>d. \<not> isl (NetworkTCPThroughput_parser d)"
  by (simp add: NetworkTCPThroughput_parser_def Let_def)

lemma NetworkTCPThroughput_parser_no_assertion:
  "\<forall>d. NetworkTCPThroughput_parser d \<noteq> Inl AssertionError"
  by (simp add: NetworkTCPThroughput_parser_def Let_def)

text \<open>
  C3, as stated, fails: in this document the second configuration leaf has two statistic
  kinds, and loading raises the exception of the unknown configuration name of the first
  leaf, which is neither the failed assertion nor the malformed-file exception.
\<close>

theorem statistic_kinds_counterexample:
  "map length (config_leaves unknown_config_document) = [1, 2]
   \<and> parse_data NetworkTCPThroughput_parser unknown_config_document =
       Inl (Exception ''Unknown machine configuration: 4vcpu_1024mb.json'')"
  by code_simp

text \<open>
  C3, amended. A document with a configuration leaf that has no or several statistic
  kinds never loads: \<^verbatim>\<open>_parse_data\<close> raises. What it raises is the first exception in
  loop order; it is the failed assertion when all tokens of the document are known and
  the extraction function does not raise. When every leaf has exactly one statistic
  kind the assertion never fails (for an extraction function that does not raise
  \<^verbatim>\<open>AssertionError\<close> itself), and with known tokens and an extraction function that does
  not raise the document loads.
\<close>

theorem parse_data_statistic_kinds:
  "((\<exists>l \<in> set (config_leaves b). length l \<noteq> 1) \<longrightarrow> isl (parse_data f b))
   \<and> ((\<exists>l \<in> set (config_leaves b). length l \<noteq> 1) \<and> tokens_known b \<and> (\<forall>d. \<not> isl (f d))
        \<longrightarrow> parse_data f b = Inl AssertionError)
   \<and> ((\<forall>l \<in> set (config_leaves b). length l = 1) \<and> (\<forall>d. f d \<noteq> Inl AssertionError)
        \<longrightarrow> parse_data f b \<noteq> Inl AssertionError)
   \<and> ((\<forall>l \<in> set (config_leaves b). length l = 1) \<and> tokens_known b \<and> (\<forall>d. \<not> isl (f d))
        \<longrightarrow> (\<exists>t. parse_data f b = Inr t))"
proof -
  have raises: "isl (parse_data f b)" if "\<exists>l \<in> set (config_leaves b). length l \<noteq> 1"
  proof (cases "parse_data f b")
    case (Inl e)
    then show ?thesis by simp
  next
    case (Inr t)
    from that obtain l where "l \<in> set (config_leaves b)" "length l \<noteq> 1" by blast
    with parse_data_Inr_leaves [OF Inr] show ?thesis by blast
  qed
  have assertion: "parse_data f b = Inl AssertionError"
    if "\<exists>l \<in> set (config_leaves b). length l \<noteq> 1" "tokens_known b" "\<forall>d. \<not> isl (f d)"
  proof -
    from raises [OF that(1)] obtain e where e: "parse_data f b = Inl e"
      by (cases "parse_data f b") auto
    from parse_data_known_error [OF that(2,3) e] e show ?thesis by simp
  qed
  have no_assertion: "parse_data f b \<noteq> Inl AssertionError"
    if "\<forall>l \<in> set (config_leaves b). length l = 1" "\<forall>d. f d \<noteq> Inl AssertionError"
  proof
    assume "parse_data f b = Inl AssertionError"
    from parse_data_assertion [OF that(2) this] that(1) show False by blast
  qed
  have loads: "\<exists>t. parse_data f b = Inr t"
    if "\<forall>l \<in> set (config_leaves b). length l = 1" "tokens_known b" "\<forall>d. \<not> isl (f d)"
    using parse_data_known_total [OF that(2,3,1)] by (cases "parse_data f b") auto
  from raises assertion no_assertion loads show ?thesis by blast
qed

theorem parse_data_statistic_kinds_witness:
  "isl (parse_data NetworkTCPThroughput_parser two_kinds_document)
   \<and> parse_data NetworkTCPThroughput_parser two_kinds_document = Inl AssertionError
   \<and> parse_data NetworkTCPThroughput_parser single_kind_document \<noteq> Inl AssertionError
   \<and> (\<exists>t. parse_data NetworkTCPThroughput_parser single_kind_document = Inr t)"
proof -
  have bad: "\<exists>l \<in> set (config_leaves two_kinds_document). length l \<noteq> 1" by code_simp
  have good: "\<forall>l \<in> set (config_leaves single_kind_document). length l = 1" by code_simp
  have known: "tokens_known two_kinds_document" "tokens_known single_kind_document"
    by code_simp+
  from bad good known NetworkTCPThroughput_parser_total NetworkTCPThroughput_parser_no_assertion
  show ?thesis
    using parse_data_statistic_kinds [of two_kinds_document NetworkTCPThroughput_parser]
      parse_data_statistic_kinds [of single_kind_document NetworkTCPThroughput_parser]
    by blast
qed

subsection \<open>Dictionaries with unique keys\<close>

lemma dict_inv_Nil: "dict_inv P []"
  by (simp add: dict_inv_def)

lemma set_update_cases:
  "e \<in> set (AList.update k v d) \<Longrightarrow> e = (k, v) \<or> e \<in> set d"
  by (induction d) (auto split: if_splits)

lemma dict_inv_update:
  assumes "dict_inv P d" "P v"
  shows "dict_inv P (AList.update k v d)"
proof -
  from assms(1) have "distinct (map fst (AList.update k v d))"
    by (simp add: dict_inv_def distinct_update)
  moreover have "P w" if "w \<in> snd ` set (AList.update k v d)" for w
  proof -
    from that obtain e where e: "e \<in> set (AList.update k v d)" "w = snd e" by blast
    from set_update_cases [OF e(1)] e(2) assms show ?thesis
      by (auto simp: dict_inv_def)
  qed
  ultimately show ?thesis by (simp add: dict_inv_def)
qed

lemma dict_inv_mono:
  assumes "dict_inv P d" "\<And>v. P v \<Longrightarrow> Q v"
  shows "dict_inv Q d"
  using assms by (simp add: dict_inv_def)

lemma flatten_Cons:
  "flatten g ((k, v) # d) = map (\<lambda>(c, x). ((k, c), x)) (g v) @ flatten g d"
  by (simp add: flatten_def)

lemma flatten_keys:
  "((a, c), x) \<in> set (flatten g d) \<Longrightarrow> a \<in> fst ` set d"
proof (induction d)
  case Nil
  then show ?case by (simp add: flatten_def)
next
  case (Cons e d)
  obtain k v where e: "e = (k, v)" by (cases e)
  from Cons.prems e have
    "((a, c), x) \<in> set (map (\<lambda>(c, x). ((k, c), x)) (g v)) \<or> ((a, c), x) \<in> set (flatten g d)"
    by (simp add: flatten_Cons)
  then show ?case
  proof
    assume "((a, c), x) \<in> set (map (\<lambda>(c, x). ((k, c), x)) (g v))"
    then have "a = k" by auto
    with e show ?thesis by simp
  next
    assume "((a, c), x) \<in> set (flatten g d)"
    with Cons.IH show ?thesis by simp
  qed
qed

lemma distinct_flatten:
  assumes "dict_inv (\<lambda>v. distinct (map fst (g v))) d"
  shows "distinct (map fst (flatten g d))"
  using assms
proof (induction d)
  case Nil
  then show ?case by (simp add: flatten_def)
next
  case (Cons e d)
  obtain k v where e: "e = (k, v)" by (cases e)
  from Cons.prems e have k: "k \<notin> fst ` set d" and v: "distinct (map fst (g v))"
    and d: "dict_inv (\<lambda>v. distinct (map fst (g v))) d"
    by (auto simp: dict_inv_def)
  have head: "map fst (map (\<lambda>(c, x). ((k, c), x)) (g v)) = map (Pair k) (map fst (g v))"
    by (induction "g v") (auto simp: case_prod_beta)
  have "distinct (map (Pair k) (map fst (g v)))"
    using v by (simp add: distinct_map inj_on_def)
  moreover have "distinct (map fst (flatten g d))"
    using Cons.IH [OF d] .
  moreover have "set (map (Pair k) (map fst (g v))) \<inter> set (map fst (flatten g d)) = {}"
  proof (rule ccontr)
    assume "\<not> ?thesis"
    then obtain c y where "((k, c), y) \<in> set (flatten g d)" by auto
    from flatten_keys [OF this] k show False by simp
  qed
  ultimately show ?case
    by (simp add: e flatten_Cons head del: map_map)
qed

subsection \<open>The tree has one leaf per coordinate\<close>

lemma for_each_dict_inv:
  assumes "for_each body xs s = Inr t" "dict_inv P s"
    and "\<And>x r r'. dict_inv P r \<Longrightarrow> body x r = Inr r' \<Longrightarrow> dict_inv P r'"
  shows "dict_inv P t"
  using assms(1,2)
proof (rule for_each_invariant)
  fix x r r'
  assume "x \<in> set xs" "dict_inv P r" "body x r = Inr r'"
  then show "dict_inv P r'" using assms(3) by blast
qed

lemma parse_config_inv:
  assumes "dict_inv (\<lambda>_. True) acc" "parse_config f c acc = Inr t"
  shows "dict_inv (\<lambda>_. True) t"
proof -
  from assms(2) obtain k v where "t = AList.update k v acc"
    by (auto simp: parse_config_def split: list.splits sum.splits prod.splits)
  with assms(1) show ?thesis by (simp add: dict_inv_update)
qed

lemma parse_userspace_inv:
  assumes "dict_inv (dict_inv (\<lambda>_. True)) acc" "parse_userspace f u acc = Inr t"
  shows "dict_inv (dict_inv (\<lambda>_. True)) t"
proof -
  from assms(2) obtain k v where v: "for_each (parse_config f) (snd u) [] = Inr v"
    and t: "t = AList.update k v acc"
    by (auto simp: parse_userspace_def split: sum.splits)
  from v have "dict_inv (\<lambda>_. True) v"
    by (rule for_each_dict_inv) (auto intro: dict_inv_Nil parse_config_inv)
  with assms(1) t show ?thesis by (simp add: dict_inv_update)
qed

lemma parse_guest_kernel_inv:
  assumes "dict_inv (dict_inv (dict_inv (\<lambda>_. True))) acc" "parse_guest_kernel f k acc = Inr t"
  shows "dict_inv (dict_inv (dict_inv (\<lambda>_. True))) t"
proof -
  from assms(2) obtain g v where v: "for_each (parse_userspace f) (snd k) [] = Inr v"
    and t: "t = AList.update g v acc"
    by (auto simp: parse_guest_kernel_def split: sum.splits)
  from v have "dict_inv (dict_inv (\<lambda>_. True)) v"
    by (rule for_each_dict_inv) (auto intro: dict_inv_Nil parse_userspace_inv)
  with assms(1) t show ?thesis by (simp add: dict_inv_update)
qed

lemma parse_metric_inv:
  assumes "dict_inv (dict_inv (dict_inv (dict_inv (\<lambda>_. True)))) acc"
    "parse_metric f m acc = Inr t"
  shows "dict_inv (dict_inv (dict_inv (dict_inv (\<lambda>_. True)))) t"
proof -
  from assms(2) obtain g v where v: "for_each (parse_guest_kernel f) (snd m) [] = Inr v"
    and t: "t = AList.update g v acc"
    by (auto simp: parse_metric_def split: sum.splits)
  from v have "dict_inv (dict_inv (dict_inv (\<lambda>_. True))) v"
    by (rule for_each_dict_inv) (auto intro: dict_inv_Nil parse_guest_kernel_inv)
  with assms(1) t show ?thesis by (simp add: dict_inv_update)
qed

lemma parse_cpu_inv:
  assumes "dict_inv (dict_inv (dict_inv (dict_inv (dict_inv (\<lambda>_. True))))) acc"
    "parse_cpu f it cpu acc = Inr t"
  shows "dict_inv (dict_inv (dict_inv (dict_inv (dict_inv (\<lambda>_. True))))) t"
proof -
  from assms(2) obtain g v where v: "for_each (parse_metric f) (cpu_baselines cpu) [] = Inr v"
    and t: "t = AList.update g v acc"
    by (auto simp: parse_cpu_def split: sum.splits)
  from v have "dict_inv (dict_inv (dict_inv (dict_inv (\<lambda>_. True)))) v"
    by (rule for_each_dict_inv) (auto intro: dict_inv_Nil parse_metric_inv)
  with assms(1) t show ?thesis by (simp add: dict_inv_update)
qed

lemma parse_data_inv:
  assumes "parse_data f b = Inr t"
  shows "dict_inv (dict_inv (dict_inv (dict_inv (dict_inv (\<lambda>_. True))))) t"
proof -
  from assms have "for_each (parse_instance f) b [] = Inr t"
    by (simp add: parse_data_def)
  then show ?thesis
  proof (rule for_each_dict_inv)
    show "dict_inv (dict_inv (dict_inv (dict_inv (dict_inv (\<lambda>_. True))))) []"
      by (rule dict_inv_Nil)
  next
    fix inst r r'
    assume r: "dict_inv (dict_inv (dict_inv (dict_inv (dict_inv (\<lambda>_. True))))) r"
      and "parse_instance f inst r = Inr r'"
    then have "for_each (parse_cpu f (fst inst)) (snd inst) r = Inr r'"
      by (simp add: parse_instance_def)
    then show "dict_inv (dict_inv (dict_inv (dict_inv (dict_inv (\<lambda>_. True))))) r'"
      using r by (rule for_each_dict_inv) (rule parse_cpu_inv)
  qed
qed

lemma tree_leaves_distinct:
  assumes "dict_inv (dict_inv (dict_inv (dict_inv (dict_inv (\<lambda>_. True))))) t"
  shows "distinct (map fst (tree_leaves t))"
proof -
  have 1: "distinct (map fst mc)" if "dict_inv (\<lambda>_. True) mc" for mc :: "('k1 \<times> 'v1) list"
    using that by (simp add: dict_inv_def)
  have 2: "distinct (map fst (flatten (\<lambda>mc. mc) os))"
    if "dict_inv (dict_inv (\<lambda>_. True)) os" for os :: "('k2 \<times> ('k1 \<times> 'v1) list) list"
    by (rule distinct_flatten) (rule dict_inv_mono [OF that], rule 1)
  have 3: "distinct (map fst (flatten (flatten (\<lambda>mc. mc)) ks))"
    if "dict_inv (dict_inv (dict_inv (\<lambda>_. True))) ks"
    for ks :: "('k3 \<times> ('k2 \<times> ('k1 \<times> 'v1) list) list) list"
    by (rule distinct_flatten) (rule dict_inv_mono [OF that], rule 2)
  have 4: "distinct (map fst (flatten (flatten (flatten (\<lambda>mc. mc))) ms))"
    if "dict_inv (dict_inv (dict_inv (dict_inv (\<lambda>_. True)))) ms"
    for ms :: "('k4 \<times> ('k3 \<times> ('k2 \<times> ('k1 \<times> 'v1) list) list) list) list"
    by (rule distinct_flatten) (rule dict_inv_mono [OF that], rule 3)
  show ?thesis
    unfolding tree_leaves_def
    by (rule distinct_flatten) (rule dict_inv_mono [OF assms], rule 4)
qed

subsection \<open>Duplicate entries\<close>

lemma parse_cpu_isl_acc:
  "isl (parse_cpu f it cpu acc) = isl (parse_cpu f it cpu [])"
  by (simp add: parse_cpu_def split: sum.splits)

lemma for_each_isl:
  assumes "\<And>x s. isl (body x s) = isl (body x s0)"
  shows "isl (for_each body xs s) \<longleftrightarrow> (\<exists>x \<in> set xs. isl (body x s0))"
proof (induction xs arbitrary: s)
  case Nil
  then show ?case by simp
next
  case (Cons y ys)
  show ?case
  proof (cases "body y s")
    case (Inl e)
    with assms [of y s] show ?thesis by simp
  next
    case (Inr s')
    with assms [of y s] Cons.IH [of s'] show ?thesis by simp
  qed
qed

lemma parse_instance_isl:
  "isl (parse_instance f inst s) \<longleftrightarrow>
     (\<exists>cpu \<in> set (snd inst). isl (parse_cpu f (fst inst) cpu []))"
  unfolding parse_instance_def by (rule for_each_isl) (rule parse_cpu_isl_acc)

lemma parse_data_isl:
  "isl (parse_data f b) \<longleftrightarrow>
     (\<exists>inst \<in> set b. \<exists>cpu \<in> set (snd inst). isl (parse_cpu f (fst inst) cpu []))"
proof -
  have "isl (for_each (parse_instance f) b []) \<longleftrightarrow> (\<exists>inst \<in> set b. isl (parse_instance f inst []))"
    by (rule for_each_isl) (simp add: parse_instance_isl)
  then show ?thesis by (simp add: parse_data_def parse_instance_isl)
qed

lemma parse_cpu_update:
  assumes "parse_cpu f it cpu acc = Inr t"
  shows "\<exists>cm ms. CpuModel_from_str it (cpu_model cpu) = Inr cm
           \<and> for_each (parse_metric f) (cpu_baselines cpu) [] = Inr ms
           \<and> t = AList.update cm ms acc"
  using assms by (auto simp: parse_cpu_def split: sum.splits)

lemma parse_cpu_other_key:
  assumes "parse_cpu f it cpu acc = Inr t" "CpuModel_from_str it (cpu_model cpu) \<noteq> Inr cm"
  shows "map_of t cm = map_of acc cm"
proof -
  from parse_cpu_update [OF assms(1)] obtain cm' ms where
    "CpuModel_from_str it (cpu_model cpu) = Inr cm'" "t = AList.update cm' ms acc" by blast
  with assms(2) show ?thesis by (simp add: update_conv')
qed

lemma last_entry_wins:
  assumes "parse_instance f (it, pre @ cpu # post) acc = Inr t"
    and "CpuModel_from_str it (cpu_model cpu) = Inr cm"
    and "\<forall>c \<in> set post. CpuModel_from_str it (cpu_model c) \<noteq> Inr cm"
  shows "\<exists>ms. for_each (parse_metric f) (cpu_baselines cpu) [] = Inr ms \<and> map_of t cm = Some ms"
proof -
  from assms(1) have run: "for_each (parse_cpu f it) (pre @ cpu # post) acc = Inr t"
    by (simp add: parse_instance_def)
  then obtain s1 where s1: "for_each (parse_cpu f it) pre acc = Inr s1"
    and rest: "for_each (parse_cpu f it) (cpu # post) s1 = Inr t"
    by (auto simp: for_each_append split: sum.splits)
  from rest obtain s2 where s2: "parse_cpu f it cpu s1 = Inr s2"
    and post: "for_each (parse_cpu f it) post s2 = Inr t"
    by (cases "parse_cpu f it cpu s1") auto
  from parse_cpu_update [OF s2] assms(2) obtain ms where
    ms: "for_each (parse_metric f) (cpu_baselines cpu) [] = Inr ms" "s2 = AList.update cm ms s1"
    by auto
  from ms(2) have "map_of s2 cm = Some ms" by (simp add: update_conv')
  with post have "map_of t cm = Some ms"
  proof (rule for_each_invariant)
    fix c r r'
    assume "c \<in> set post" "map_of r cm = Some ms" "parse_cpu f it c r = Inr r'"
    with assms(3) parse_cpu_other_key [of f it c r r' cm] show "map_of r' cm = Some ms"
      by simp
  qed
  with ms(1) show ?thesis by blast
qed

text \<open>
  C6, as stated, fails in its second half: this document has two CPU entries of instance
  type \<^verbatim>\<open>m5d.metal\<close> that resolve to the same CPU model, hence two leaves at one full
  coordinate; it loads without an exception and the tree holds the target 105 of the
  second entry only.
\<close>

theorem duplicate_leaves_counterexample:
  "map (CpuModel_from_str ''m5d.metal'') (map cpu_model (concat (map snd duplicate_cpu_document)))
     = [Inr SKY_LAKE, Inr SKY_LAKE]
   \<and> config_leaves duplicate_cpu_document = [[(''Avg'', stat_data 100)], [(''Avg'', stat_data 105)]]
   \<and> parse_data NetworkTCPThroughput_parser duplicate_cpu_document =
       Inr [(SKY_LAKE, [(THROUGHPUT, [(KERNEL_5_10, [(UBUNTU_18_04, [(VCPU_2_MEM_1G,
         [(''host-to-guest'', \<lparr>test_types = None, delta_percentages = [], targets = []\<rparr>),
          (''guest-to-host'', \<lparr>test_types = None, delta_percentages = [10], targets = [105]\<rparr>),
          (''bidirectional'',
             \<lparr>test_types = Some [], delta_percentages = [], targets = []\<rparr>)])])])])])]"
  by code_simp

text \<open>
  C6, amended. The tree \<^verbatim>\<open>_parse_data\<close> returns has at most one leaf per full coordinate.
  Duplicate leaves in the document are not rejected: loading raises exactly when one CPU
  entry, parsed on its own, raises; and of several CPU entries of one instance type that
  resolve to the same CPU model the last one is the one the tree holds.
\<close>

theorem parse_data_duplicates:
  "(parse_data f b = Inr t \<longrightarrow> distinct (map fst (tree_leaves t)))
   \<and> (isl (parse_data f b) \<longleftrightarrow>
        (\<exists>inst \<in> set b. \<exists>cpu \<in> set (snd inst). isl (parse_cpu f (fst inst) cpu [])))
   \<and> (parse_instance f (it, pre @ cpu # post) acc = Inr t'
        \<and> CpuModel_from_str it (cpu_model cpu) = Inr cm
        \<and> (\<forall>c \<in> set post. CpuModel_from_str it (cpu_model c) \<noteq> Inr cm)
      \<longrightarrow> (\<exists>ms. for_each (parse_metric f) (cpu_baselines cpu) [] = Inr ms
              \<and> map_of t' cm = Some ms))"
proof -
  have 1: "distinct (map fst (tree_leaves t))" if "parse_data f b = Inr t"
    using that by (intro tree_leaves_distinct parse_data_inv)
  from 1 parse_data_isl [of f b] last_entry_wins [of f it pre cpu post acc t' cm]
  show ?thesis by blast
qed

theorem parse_data_duplicates_witness:
  "(\<exists>t. parse_data NetworkTCPThroughput_parser duplicate_cpu_document = Inr t
        \<and> distinct (map fst (tree_leaves t)))
   \<and> (\<exists>t ms. parse_instance NetworkTCPThroughput_parser
                (''m5d.metal'', [skylake_cpu 100, skylake_cpu 105]) [] = Inr t
        \<and> for_each (parse_metric NetworkTCPThroughput_parser)
             (cpu_baselines (skylake_cpu 105)) [] = Inr ms
        \<and> map_of t SKY_LAKE = Some ms)"
proof -
  have a: "\<not> isl (parse_data NetworkTCPThroughput_parser duplicate_cpu_document)"
    by code_simp
  then obtain t where t: "parse_data NetworkTCPThroughput_parser duplicate_cpu_document = Inr t"
    by (cases "parse_data NetworkTCPThroughput_parser duplicate_cpu_document") auto
  have b: "\<not> isl (parse_instance NetworkTCPThroughput_parser
                (''m5d.metal'', [skylake_cpu 100] @ skylake_cpu 105 # []) [])"
    by code_simp
  then obtain t' where t': "parse_instance NetworkTCPThroughput_parser
                (''m5d.metal'', [skylake_cpu 100] @ skylake_cpu 105 # []) [] = Inr t'"
    by (cases "parse_instance NetworkTCPThroughput_parser
                (''m5d.metal'', [skylake_cpu 100] @ skylake_cpu 105 # []) []") auto
  have c: "CpuModel_from_str ''m5d.metal'' (cpu_model (skylake_cpu 105)) = Inr SKY_LAKE"
    by code_simp
  from t have "distinct (map fst (tree_leaves t))"
    using parse_data_duplicates [of NetworkTCPThroughput_parser duplicate_cpu_document t]
    by blast
  moreover from t' c have "\<exists>ms. for_each (parse_metric NetworkTCPThroughput_parser)
             (cpu_baselines (skylake_cpu 105)) [] = Inr ms \<and> map_of t' SKY_LAKE = Some ms"
    using parse_data_duplicates [of NetworkTCPThroughput_parser _ _ "''m5d.metal''"
        "[skylake_cpu 100]" "skylake_cpu 105" "[]" "[]" t' SKY_LAKE]
    by simp
  ultimately show ?thesis using t t' by auto
qed

section \<open>Properties of the worktree handling\<close>

text \<open>
  The context manager cleans up: with a body that leaves the worktrees alone, the
  worktrees after the \<^verbatim>\<open>with\<close> statement are those before it, whether \<^verbatim>\<open>__enter__\<close> or the
  body raised or not.
\<close>

lemma with_GitWorktree_cleans_up:
  assumes "\<forall>h g1. worktrees (snd (body h g1)) = worktrees g1"
  shows "worktrees (snd (with_GitWorktree git_ref body g)) = worktrees g"
proof (cases "map_of (revs g) git_ref")
  case None
  then show ?thesis
    by (simp add: with_GitWorktree_def GitWorktree_enter_def git_rev_parse_def)
next
  case (Some h)
  show ?thesis
  proof (cases "h \<in> set (worktrees g) \<or> map_of (revs g) h = None")
    case True
    with Some show ?thesis
      by (simp add: with_GitWorktree_def GitWorktree_enter_def git_rev_parse_def
          git_worktree_add_def)
  next
    case False
    define g1 where "g1 = g\<lparr>worktrees := worktrees g @ [h]\<rparr>"
    obtain r g2 where b: "body h g1 = (r, g2)" by (cases "body h g1")
    from assms [rule_format, of h g1] b have w2: "worktrees g2 = worktrees g @ [h]"
      by (simp add: g1_def)
    from False Some b w2 show ?thesis
      by (simp add: with_GitWorktree_def GitWorktree_enter_def git_rev_parse_def
          git_worktree_add_def GitWorktree_exit_def git_worktree_remove_def g1_def
          removeAll_id)
  qed
qed

text \<open>
  The commands clean up on the path without an exception: when \<^verbatim>\<open>cmd_commit\<close> or
  \<^verbatim>\<open>cmd_latest\<close> returns, the worktrees are those before the command.
\<close>

lemma cmd_commit_returns_clean:
  assumes "cmd_commit new_comparator report basedir args g = (Inr out, g')"
  shows "worktrees g' = worktrees g"
proof -
  define tgt where "tgt = (case arg_target args of None \<Rightarrow> head_hash g | Some t \<Rightarrow> t)"
  have hd: "(case arg_target args of None \<Rightarrow> git_show_head g | Some t \<Rightarrow> (Inr t, g))
              = (Inr tgt, g)"
    by (simp add: tgt_def git_show_head_def split: option.splits)
  from assms show ?thesis
    unfolding cmd_commit_def hd
    by (auto simp: git_worktree_add_def git_worktree_remove_def removeAll_id
        split: if_splits sum.splits prod.splits)
qed

lemma cmd_latest_returns_clean:
  assumes "cmd_latest new_comparator report basedir g = (Inr out, g')"
  shows "worktrees g' = worktrees g"
  using assms
  by (auto simp: cmd_latest_def git_show_head_def git_worktree_add_def
      git_worktree_remove_def removeAll_id split: if_splits sum.splits prod.splits)

text \<open>
  C7 fails on the error paths of the commands. In a repository with the commits
  \<^verbatim>\<open>1a2b3c\<close> and \<^verbatim>\<open>4d5e6f\<close> and no worktree: when the comparator's constructor raises,
  \<^verbatim>\<open>cmd_commit\<close> ends with both worktrees on disk and \<^verbatim>\<open>cmd_latest\<close> with one; when the
  target commit is unknown, \<^verbatim>\<open>cmd_commit\<close> ends with the worktree of the source.
\<close>

theorem cmd_commit_leaves_worktrees:
  "cmd_commit failing_comparator report basedir
       \<lparr>arg_source = ''1a2b3c'', arg_target = Some ''4d5e6f''\<rparr> two_commit_repo
     = (Inl (Exception ''Malformed baseline file''),
        two_commit_repo\<lparr>worktrees := [''1a2b3c'', ''4d5e6f'']\<rparr>)
   \<and> cmd_latest failing_comparator report basedir two_commit_repo
     = (Inl (Exception ''Malformed baseline file''),
        two_commit_repo\<lparr>worktrees := [''4d5e6f'']\<rparr>)
   \<and> cmd_commit new_comparator report basedir
       \<lparr>arg_source = ''1a2b3c'', arg_target = Some ''777777''\<rparr> two_commit_repo
     = (Inl CalledProcessError, two_commit_repo\<lparr>worktrees := [''1a2b3c'']\<rparr>)"
  by (simp add: cmd_commit_def cmd_latest_def failing_comparator_def two_commit_repo_def
      git_show_head_def git_worktree_add_def git_worktree_remove_def)

section \<open>Properties of the comparison values and the rendering\<close>

lemma save_until_error_set:
  "fig \<in> set (snd (save_until_error rounds)) \<Longrightarrow> Inr fig \<in> set rounds"
  by (induction rounds rule: save_until_error.induct) (auto split: prod.splits)

lemma in_concat_map: "y \<in> set (concat (map f xs)) \<Longrightarrow> \<exists>x \<in> set xs. y \<in> set (f x)"
  by auto

lemma in_set_map: "y \<in> set (map f xs) \<Longrightarrow> \<exists>x \<in> set xs. y = f x"
  by auto

lemma plot_metric_figure:
  assumes "plot_metric m2s dpath key base raw stat = Inr fig"
  shows "\<exists>cpus. dict_get (snd stat) key = Inr cpus
           \<and> fig_y fig = map (\<lambda>cpu. stat_mean cpu + base) cpus
           \<and> fig_title fig = fst stat @ '' - '' @ key"
  using assms by (auto simp: plot_metric_def split: sum.splits)

lemma output_images_figures:
  assumes "fig \<in> set (snd (output_images m2s result dpath key base))"
  shows "\<exists>raw \<in> set (map snd result). \<exists>stat \<in> set (entry_stats raw). \<exists>cpus.
           dict_get (snd stat) key = Inr cpus
           \<and> fig_y fig = map (\<lambda>cpu. stat_mean cpu + base) cpus
           \<and> fig_title fig = fst stat @ '' - '' @ key"
proof -
  from save_until_error_set [OF assms [unfolded output_images_def]]
  have "\<exists>raw \<in> set (map snd result).
          Inr fig \<in> set (map (plot_metric m2s dpath key base raw) (entry_stats raw))"
    by (rule in_concat_map)
  then obtain raw where raw: "raw \<in> set (map snd result)"
    "Inr fig \<in> set (map (plot_metric m2s dpath key base raw) (entry_stats raw))"
    by blast
  from in_set_map [OF raw(2)] obtain stat where stat: "stat \<in> set (entry_stats raw)"
    "plot_metric m2s dpath key base raw stat = Inr fig"
    by auto
  note rs = raw(1) stat
  from plot_metric_figure [OF rs(3)] rs(1,2) show ?thesis by blast
qed

lemma output_all_figures:
  "fig \<in> set (snd (output_all m2s result dpath pairs)) \<Longrightarrow>
     \<exists>p \<in> set pairs. fig \<in> set (snd (output_images m2s result dpath (fst p) (snd p)))"
proof (induction pairs)
  case Nil
  then show ?case by simp
next
  case (Cons p pairs)
  obtain key base where p: "p = (key, base)" by (cases p)
  obtain r figs where oi: "output_images m2s result dpath key base = (r, figs)"
    by (cases "output_images m2s result dpath key base")
  show ?case
  proof (cases r)
    case (Some e)
    with Cons.prems p oi show ?thesis by simp
  next
    case None
    obtain r' figs' where oa: "output_all m2s result dpath pairs = (r', figs')"
      by (cases "output_all m2s result dpath pairs")
    from Cons.prems p oi None oa have "fig \<in> set figs \<or> fig \<in> set figs'" by simp
    then show ?thesis
    proof
      assume "fig \<in> set figs"
      with p oi show ?thesis by simp
    next
      assume "fig \<in> set figs'"
      with oa Cons.IH show ?thesis by simp
    qed
  qed
qed

lemma output_images_rounds:
  "output_images m2s result dpath key base =
     save_until_error
       (map (\<lambda>rnd. plot_metric m2s dpath key base (fst rnd) (snd rnd))
          (report_rounds result))"
  by (simp add: output_images_def report_rounds_def map_concat comp_def)

lemma save_until_error_None:
  "fst (save_until_error rounds) = None \<Longrightarrow> map Inr (snd (save_until_error rounds)) = rounds"
  by (induction rounds rule: save_until_error.induct) (auto split: prod.splits)

lemma save_until_error_all_Inr:
  "\<forall>r \<in> set rounds. \<not> isl r \<Longrightarrow> fst (save_until_error rounds) = None"
  by (induction rounds rule: save_until_error.induct) (auto split: prod.splits)

lemma map_eq_list_all2:
  "map f xs = map g ys \<Longrightarrow> list_all2 (\<lambda>x y. f x = g y) xs ys"
proof (induction xs arbitrary: ys)
  case Nil
  then show ?case by simp
next
  case (Cons x xs)
  then show ?case by (cases ys) auto
qed

lemma plot_metric_plots:
  assumes "plot_metric m2s dpath key base raw stat = Inr fig"
  shows "plots key base fig (raw, stat)"
  using assms by (auto simp: plot_metric_def plots_def split: sum.splits)

lemma output_images_complete:
  assumes "fst (output_images m2s result dpath key base) = None"
  shows "list_all2 (plots key base) (snd (output_images m2s result dpath key base))
           (report_rounds result)"
proof -
  from save_until_error_None [OF assms [unfolded output_images_rounds]]
  have "map Inr (snd (output_images m2s result dpath key base)) =
      map (\<lambda>rnd. plot_metric m2s dpath key base (fst rnd) (snd rnd)) (report_rounds result)"
    by (simp add: output_images_rounds)
  from map_eq_list_all2 [OF this]
  have "list_all2 (\<lambda>fig rnd. Inr fig = plot_metric m2s dpath key base (fst rnd) (snd rnd))
          (snd (output_images m2s result dpath key base)) (report_rounds result)" .
  then show ?thesis
  proof (rule list_all2_mono)
    fix fig rnd
    assume "Inr fig = plot_metric m2s dpath key base (fst rnd) (snd rnd)"
    then have "plots key base fig (fst rnd, snd rnd)"
      by (intro plot_metric_plots) simp
    then show "plots key base fig rnd" by simp
  qed
qed

lemma main_images_None:
  assumes "fst (main_images m2s result dpath) = None"
  shows "fst (output_images m2s result dpath ''target_diff_percentage'' 100) = None
    \<and> fst (output_images m2s result dpath ''delta_percentage_diff'' 0) = None
    \<and> snd (main_images m2s result dpath) =
        snd (output_images m2s result dpath ''target_diff_percentage'' 100)
        @ snd (output_images m2s result dpath ''delta_percentage_diff'' 0)"
  using assms
  by (auto simp: main_images_def key_bases_def split: prod.splits option.splits)

lemma short_labels_total:
  "list_all (\<lambda>cpu. stat_model cpu \<in> set (map fst m2s)) cpus \<Longrightarrow> \<not> isl (short_labels m2s cpus)"
proof (induction cpus)
  case Nil
  then show ?case by simp
next
  case (Cons cpu cpus)
  from Cons.prems obtain l where "map_of m2s (stat_model cpu) = Some l"
    by (cases "map_of m2s (stat_model cpu)") (auto simp: map_of_eq_None_iff)
  with Cons show ?case
    by (cases "short_labels m2s cpus") (auto simp: dict_get_def)
qed

lemma plot_metric_total:
  assumes "dict_get (snd stat) key = Inr cpus" "cpus \<noteq> []"
    "list_all (\<lambda>cpu. stat_model cpu \<in> set (map fst m2s)) cpus"
  shows "\<not> isl (plot_metric m2s dpath key base raw stat)"
proof -
  from assms(2) obtain cpu0 rest where c: "cpus = cpu0 # rest" by (cases cpus) auto
  from short_labels_total [OF assms(3)] obtain labels where l: "short_labels m2s cpus = Inr labels"
    by (cases "short_labels m2s cpus") auto
  from assms(3) c obtain s0 where "map_of m2s (stat_model cpu0) = Some s0"
    by (cases "map_of m2s (stat_model cpu0)") (auto simp: map_of_eq_None_iff)
  then have "dict_get m2s (stat_model cpu0) = Inr s0" by (simp add: dict_get_def)
  with assms(1) l c show ?thesis
    by (simp add: plot_metric_def first_item_def)
qed

lemma output_images_total:
  assumes "renderable m2s result"
    "key \<in> set [''target_diff_percentage'', ''delta_percentage_diff'']"
  shows "fst (output_images m2s result dpath key base) = None"
  unfolding output_images_rounds
proof (rule save_until_error_all_Inr, rule ballI)
  fix r
  assume "r \<in> set (map (\<lambda>rnd. plot_metric m2s dpath key base (fst rnd) (snd rnd))
                   (report_rounds result))"
  then obtain rnd where rnd: "rnd \<in> set (report_rounds result)"
    "r = plot_metric m2s dpath key base (fst rnd) (snd rnd)" by auto
  from assms rnd(1) obtain cpus where "dict_get (snd (snd rnd)) key = Inr cpus"
    "cpus \<noteq> []" "list_all (\<lambda>cpu. stat_model cpu \<in> set (map fst m2s)) cpus"
    unfolding renderable_def list_all_iff
    by (cases "dict_get (snd (snd rnd)) key") fastforce+
  from plot_metric_total [OF this] rnd(2) show "\<not> isl r" by simp
qed

lemma main_images_total:
  assumes "renderable m2s result"
  shows "fst (main_images m2s result dpath) = None"
  using output_images_total [OF assms, of "''target_diff_percentage''" dpath 100]
    output_images_total [OF assms, of "''delta_percentage_diff''" dpath 0]
  by (auto simp: main_images_def key_bases_def split: prod.splits option.splits)

text \<open>
  C1. By the specification's formula the comparison value of a leaf is the comparison
  target as a percentage of the basis target, so an unchanged target gives 100 and the
  targets 100 and 105 give 105. The rendering step, \<^verbatim>\<open>main\<close> of \<^verbatim>\<open>output_images.py\<close>,
  pairs \<^verbatim>\<open>target_diff_percentage\<close> with the base 100 and \<^verbatim>\<open>delta_percentage_diff\<close> with the
  base 0. Every figure it saves plots the means of one of the two keys with the key's
  base added. A run that ends without an exception saves, for every entry and metric of
  the report in order, first the chart of \<^verbatim>\<open>target_diff_percentage\<close> with 100 added to
  every mean and then, for every entry and metric again, the chart of
  \<^verbatim>\<open>delta_percentage_diff\<close> with 0 added; and on a renderable report the run ends without
  an exception.
\<close>

theorem comparison_convention:
  "(target basis \<noteq> 0 \<longrightarrow>
      target_diff_percentage basis comparison = Some (target comparison / target basis * 100)
      \<and> target_diff_percentage basis basis = Some 100)
   \<and> target_diff_percentage \<lparr>delta_percentage = 10, target = 100\<rparr>
        \<lparr>delta_percentage = 12, target = 105\<rparr> = Some 105
   \<and> map_of key_bases ''target_diff_percentage'' = Some 100
   \<and> map_of key_bases ''delta_percentage_diff'' = Some 0
   \<and> map fst key_bases = [''target_diff_percentage'', ''delta_percentage_diff'']
   \<and> (\<forall>fig \<in> set (snd (main_images m2s result dpath)).
        \<exists>raw \<in> set (map snd result). \<exists>stat \<in> set (entry_stats raw). \<exists>cpus.
          (dict_get (snd stat) ''target_diff_percentage'' = Inr cpus
             \<and> fig_y fig = map (\<lambda>cpu. stat_mean cpu + 100) cpus
             \<and> fig_title fig = fst stat @ '' - target_diff_percentage'')
          \<or> (dict_get (snd stat) ''delta_percentage_diff'' = Inr cpus
             \<and> fig_y fig = map (\<lambda>cpu. stat_mean cpu + 0) cpus
             \<and> fig_title fig = fst stat @ '' - delta_percentage_diff''))
   \<and> (fst (main_images m2s result dpath) = None \<longrightarrow>
        (\<exists>figs1 figs2. snd (main_images m2s result dpath) = figs1 @ figs2
           \<and> list_all2 (plots ''target_diff_percentage'' 100) figs1 (report_rounds result)
           \<and> list_all2 (plots ''delta_percentage_diff'' 0) figs2 (report_rounds result)))
   \<and> (renderable m2s result \<longrightarrow> fst (main_images m2s result dpath) = None)"
proof -
  have formula: "target_diff_percentage basis comparison
        = Some (target comparison / target basis * 100)
      \<and> target_diff_percentage basis basis = Some 100" if "target basis \<noteq> 0"
    using that by (simp add: target_diff_percentage_def)
  have example: "target_diff_percentage \<lparr>delta_percentage = 10, target = 100\<rparr>
        \<lparr>delta_percentage = 12, target = 105\<rparr> = Some 105"
    by (simp add: target_diff_percentage_def)
  have bases: "map_of key_bases ''target_diff_percentage'' = Some 100"
    "map_of key_bases ''delta_percentage_diff'' = Some 0"
    "map fst key_bases = [''target_diff_percentage'', ''delta_percentage_diff'']"
    by (simp_all add: key_bases_def)
  have figures: "\<exists>raw \<in> set (map snd result). \<exists>stat \<in> set (entry_stats raw). \<exists>cpus.
          (dict_get (snd stat) ''target_diff_percentage'' = Inr cpus
             \<and> fig_y fig = map (\<lambda>cpu. stat_mean cpu + 100) cpus
             \<and> fig_title fig = fst stat @ '' - target_diff_percentage'')
          \<or> (dict_get (snd stat) ''delta_percentage_diff'' = Inr cpus
             \<and> fig_y fig = map (\<lambda>cpu. stat_mean cpu + 0) cpus
             \<and> fig_title fig = fst stat @ '' - delta_percentage_diff'')"
    if "fig \<in> set (snd (main_images m2s result dpath))" for fig
  proof -
    from output_all_figures [OF that [unfolded main_images_def]]
    have "fig \<in> set (snd (output_images m2s result dpath ''target_diff_percentage'' 100))
        \<or> fig \<in> set (snd (output_images m2s result dpath ''delta_percentage_diff'' 0))"
      by (simp add: key_bases_def)
    then show ?thesis
    proof
      assume "fig \<in> set (snd (output_images m2s result dpath ''target_diff_percentage'' 100))"
      from output_images_figures [OF this] show ?thesis by simp blast
    next
      assume "fig \<in> set (snd (output_images m2s result dpath ''delta_percentage_diff'' 0))"
      from output_images_figures [OF this] show ?thesis by simp blast
    qed
  qed
  have complete: "\<exists>figs1 figs2. snd (main_images m2s result dpath) = figs1 @ figs2
           \<and> list_all2 (plots ''target_diff_percentage'' 100) figs1 (report_rounds result)
           \<and> list_all2 (plots ''delta_percentage_diff'' 0) figs2 (report_rounds result)"
    if "fst (main_images m2s result dpath) = None"
  proof -
    from main_images_None [OF that] output_images_complete
    show ?thesis by blast
  qed
  have total: "fst (main_images m2s result dpath) = None" if "renderable m2s result"
    using that by (rule main_images_total)
  from formula example bases have first:
    "(target basis \<noteq> 0 \<longrightarrow>
      target_diff_percentage basis comparison = Some (target comparison / target basis * 100)
      \<and> target_diff_percentage basis basis = Some 100)"
    "target_diff_percentage \<lparr>delta_percentage = 10, target = 100\<rparr>
        \<lparr>delta_percentage = 12, target = 105\<rparr> = Some 105"
    "map_of key_bases ''target_diff_percentage'' = Some 100"
    "map_of key_bases ''delta_percentage_diff'' = Some 0"
    "map fst key_bases = [''target_diff_percentage'', ''delta_percentage_diff'']"
    by blast+
  from figures have safe: "\<forall>fig \<in> set (snd (main_images m2s result dpath)).
        \<exists>raw \<in> set (map snd result). \<exists>stat \<in> set (entry_stats raw). \<exists>cpus.
          (dict_get (snd stat) ''target_diff_percentage'' = Inr cpus
             \<and> fig_y fig = map (\<lambda>cpu. stat_mean cpu + 100) cpus
             \<and> fig_title fig = fst stat @ '' - target_diff_percentage'')
          \<or> (dict_get (snd stat) ''delta_percentage_diff'' = Inr cpus
             \<and> fig_y fig = map (\<lambda>cpu. stat_mean cpu + 0) cpus
             \<and> fig_title fig = fst stat @ '' - delta_percentage_diff'')"
    by blast
  from complete total have last:
    "fst (main_images m2s result dpath) = None \<longrightarrow>
        (\<exists>figs1 figs2. snd (main_images m2s result dpath) = figs1 @ figs2
           \<and> list_all2 (plots ''target_diff_percentage'' 100) figs1 (report_rounds result)
           \<and> list_all2 (plots ''delta_percentage_diff'' 0) figs2 (report_rounds result))"
    "renderable m2s result \<longrightarrow> fst (main_images m2s result dpath) = None"
    by blast+
  from first safe last show ?thesis by (intro conjI)
qed

theorem comparison_convention_witness:
  "target_diff_percentage \<lparr>delta_percentage = 10, target = 100\<rparr>
        \<lparr>delta_percentage = 12, target = 105\<rparr> = Some (105 / 100 * 100)
   \<and> target_diff_percentage \<lparr>delta_percentage = 10, target = 100\<rparr>
        \<lparr>delta_percentage = 10, target = 100\<rparr> = Some 100
   \<and> (\<exists>raw \<in> set (map snd example_report). \<exists>stat \<in> set (entry_stats raw). \<exists>cpus.
          (dict_get (snd stat) ''target_diff_percentage'' = Inr cpus
             \<and> fig_y (hd (snd (main_images [(''m5d.metal'', ''m5d'')] example_report
                   ''comparison_results/''))) = map (\<lambda>cpu. stat_mean cpu + 100) cpus
             \<and> fig_title (hd (snd (main_images [(''m5d.metal'', ''m5d'')] example_report
                   ''comparison_results/''))) = fst stat @ '' - target_diff_percentage'')
          \<or> (dict_get (snd stat) ''delta_percentage_diff'' = Inr cpus
             \<and> fig_y (hd (snd (main_images [(''m5d.metal'', ''m5d'')] example_report
                   ''comparison_results/''))) = map (\<lambda>cpu. stat_mean cpu + 0) cpus
             \<and> fig_title (hd (snd (main_images [(''m5d.metal'', ''m5d'')] example_report
                   ''comparison_results/''))) = fst stat @ '' - delta_percentage_diff''))
   \<and> fst (main_images [(''m5d.metal'', ''m5d'')] example_report ''comparison_results/'') = None
   \<and> (\<exists>figs1 figs2.
        snd (main_images [(''m5d.metal'', ''m5d'')] example_report ''comparison_results/'')
          = figs1 @ figs2
        \<and> list_all2 (plots ''target_diff_percentage'' 100) figs1 (report_rounds example_report)
        \<and> list_all2 (plots ''delta_percentage_diff'' 0) figs2 (report_rounds example_report))"
proof -
  have ok: "renderable [(''m5d.metal'', ''m5d'')] example_report" by code_simp
  have nz: "target \<lparr>delta_percentage = 10, target = 100\<rparr> \<noteq> 0" by simp
  have "length (snd (main_images [(''m5d.metal'', ''m5d'')] example_report
          ''comparison_results/'')) = 2"
    by code_simp
  then have mem: "hd (snd (main_images [(''m5d.metal'', ''m5d'')] example_report
          ''comparison_results/''))
      \<in> set (snd (main_images [(''m5d.metal'', ''m5d'')] example_report ''comparison_results/''))"
    by (cases "snd (main_images [(''m5d.metal'', ''m5d'')] example_report
          ''comparison_results/'')") simp_all
  note inst = comparison_convention [of "\<lparr>delta_percentage = 10, target = 100\<rparr>"
      "\<lparr>delta_percentage = 12, target = 105\<rparr>" "[(''m5d.metal'', ''m5d'')]" example_report
      "''comparison_results/''"]
  from inst nz have a: "target_diff_percentage \<lparr>delta_percentage = 10, target = 100\<rparr>
        \<lparr>delta_percentage = 12, target = 105\<rparr> = Some (105 / 100 * 100)"
    and b: "target_diff_percentage \<lparr>delta_percentage = 10, target = 100\<rparr>
        \<lparr>delta_percentage = 10, target = 100\<rparr> = Some 100"
    by simp_all
  from inst have ball: "\<forall>fig \<in> set (snd (main_images [(''m5d.metal'', ''m5d'')] example_report
          ''comparison_results/'')).
        \<exists>raw \<in> set (map snd example_report). \<exists>stat \<in> set (entry_stats raw). \<exists>cpus.
          (dict_get (snd stat) ''target_diff_percentage'' = Inr cpus
             \<and> fig_y fig = map (\<lambda>cpu. stat_mean cpu + 100) cpus
             \<and> fig_title fig = fst stat @ '' - target_diff_percentage'')
          \<or> (dict_get (snd stat) ''delta_percentage_diff'' = Inr cpus
             \<and> fig_y fig = map (\<lambda>cpu. stat_mean cpu + 0) cpus
             \<and> fig_title fig = fst stat @ '' - delta_percentage_diff'')"
    by (elim conjE)
  from inst ok have c:
    "fst (main_images [(''m5d.metal'', ''m5d'')] example_report ''comparison_results/'') = None"
    by blast
  with inst have d: "\<exists>figs1 figs2.
        snd (main_images [(''m5d.metal'', ''m5d'')] example_report ''comparison_results/'')
          = figs1 @ figs2
        \<and> list_all2 (plots ''target_diff_percentage'' 100) figs1 (report_rounds example_report)
        \<and> list_all2 (plots ''delta_percentage_diff'' 0) figs2 (report_rounds example_report)"
    by blast
  from a b bspec [OF ball mem] c d show ?thesis by (intro conjI)
qed

text \<open>
  The figures \<^verbatim>\<open>main\<close> saves for the example report: the comparison value 105 is plotted
  at 205 and the tolerance difference 2 at 2.
\<close>

lemma main_images_example:
  "map fig_y (snd (main_images [(''m5d.metal'', ''m5d'')] example_report ''comparison_results/''))
     = [[205], [2]]
   \<and> fst (main_images [(''m5d.metal'', ''m5d'')] example_report ''comparison_results/'') = None"
  by code_simp

end
